theory Spec2Isabelle
  imports Complex_Main "HOL-Library.Sublist"
begin

section \<open>Data model\<close>

subsection \<open>JavaScript helpers\<close>

text \<open>
  \<^verbatim>\<open>xs[i]\<close> for a numeric index: \<^verbatim>\<open>undefined\<close> (here \<open>None\<close>) for \<open>-1\<close> and for every
  index outside the array.
\<close>

definition at_index :: "'a list \<Rightarrow> int \<Rightarrow> 'a option" where
  "at_index xs i = (if 0 \<le> i \<and> i < int (length xs) then Some (xs ! nat i) else None)"

text \<open>\<^verbatim>\<open>Array.prototype.findIndex\<close>: the first index whose element passes, \<open>-1\<close> if none does.\<close>

fun findIndex :: "('a \<Rightarrow> bool) \<Rightarrow> 'a list \<Rightarrow> int" where
  "findIndex P [] = - 1"
| "findIndex P (x # xs) =
     (if P x then 0 else (let i = findIndex P xs in if i < 0 then - 1 else i + 1))"

text \<open>
  \<^verbatim>\<open>String.prototype.toLowerCase\<close> on the ASCII letters (a \<open>string\<close> is a list of bytes;
  the engine's rendition types are the ASCII words SUBTITLES, CLOSED-CAPTIONS, AUDIO).
\<close>

definition lower_char :: "char \<Rightarrow> char" where
  "lower_char c =
     (let n = (of_char c :: nat) in if 65 \<le> n \<and> n \<le> 90 then char_of (n + 32) else c)"

definition toLowerCase :: "string \<Rightarrow> string" where
  "toLowerCase s = map lower_char s"

text \<open>A string is falsy when it is \<^verbatim>\<open>undefined\<close> or empty.\<close>

definition falsy :: "string option \<Rightarrow> bool" where
  "falsy s = (case s of None \<Rightarrow> True | Some v \<Rightarrow> v = [])"

subsection \<open>The engine (hls.js), as this code reads and writes it\<close>

text \<open>A quality level. \<open>url\<close> is an array; its first element is the level's identifier.\<close>

record level =
  name :: string
  attrs_LANGUAGE :: "string option"
  width :: nat
  height :: nat
  bitrate :: nat
  url :: "string list"

text \<open>The destructuring \<^verbatim>\<open>url: [id]\<close>: \<^verbatim>\<open>undefined\<close> on an empty array.\<close>

definition level_id :: "level \<Rightarrow> string option" where
  "level_id l = (case url l of [] \<Rightarrow> None | u # _ \<Rightarrow> Some u)"

text \<open>\<^verbatim>\<open>MediaPlaylist\<close>: an audio or subtitle rendition.\<close>

record media_playlist =
  mp_type :: string
  mp_name :: string
  lang :: "string option"
  mp_url :: string

datatype media_ref = NoMedia | ThisVideo | OtherMedia

datatype hls_event =
  MANIFEST_LOADED | LEVEL_SWITCHED | AUDIO_TRACK_SWITCHED | SUBTITLE_TRACK_SWITCH
  | NON_NATIVE_TEXT_TRACKS_FOUND | CUES_PARSED | MEDIA_DETACHING

text \<open>The callbacks \<open>initHls\<close> registers, by what they run.\<close>

datatype hls_listener =
  UpdateTrackLists | UpdateVideoTrack | UpdateAudioTrack | UpdateTextTrack
  | InitNativeTextTrack | AddCues | Off hls_event hls_listener | RemoveTextTracksChange

text \<open>
  The engine is a collaborator: every call and property write this code makes on it is
  recorded, in order, in \<open>calls\<close>; what it answers to a property read is a field.
\<close>

datatype hls_call =
  On hls_event hls_listener | LoadSource string | AttachMedia | DetachMedia | Destroy
  | SetCurrentLevel int | SetAudioTrack int | SetSubtitleTrack int

record hls_config =
  liveDurationInfinity :: bool
  renderTextTracksNatively :: bool

record hls =
  config :: hls_config
  media :: media_ref
  levels :: "level list"
  currentLevel :: int
  audioTracks :: "media_playlist list"
  audioTrack :: int
  subtitleTracks :: "media_playlist list"
  subtitleTrack :: int
  calls :: "hls_call list"

definition call :: "hls_call \<Rightarrow> hls \<Rightarrow> hls" where
  "call c h = h\<lparr>calls := calls h @ [c]\<rparr>"

text \<open>\<^verbatim>\<open>hls.attachMedia(video)\<close>: from then on \<^verbatim>\<open>hls.media\<close> is the video element.\<close>

definition attachMedia :: "hls \<Rightarrow> hls" where
  "attachMedia h = (call AttachMedia h)\<lparr>media := ThisVideo\<rparr>"

text \<open>The engine's constructor: from a configuration to a fresh instance.\<close>

type_synonym hls_ctor = "hls_config \<Rightarrow> hls"

text \<open>The static slot \<open>HLSPonyfill.HlsConstructor\<close> and the global \<^verbatim>\<open>globalThis.Hls\<close>.\<close>

record statics =
  HlsConstructor :: "hls_ctor option"
  globalThis_Hls :: "hls_ctor option"

subsection \<open>Track lists (package media-track-list)\<close>

text \<open>
  A \<^verbatim>\<open>VideoTrack\<close> or \<^verbatim>\<open>AudioTrack\<close> is an object: \<open>ref\<close> is its identity, which is what
  the provenance sets (\<^verbatim>\<open>Set<VideoTrack>\<close>) and \<^verbatim>\<open>removeTrack\<close> compare. \<open>id_t\<close> is the
  track's \<^verbatim>\<open>id\<close>.
\<close>

record track =
  ref :: nat
  id_t :: "string option"
  language :: "string option"
  label :: string

record video_track = track +
  track_width :: nat
  track_height :: nat
  track_bitrate :: nat
  selected :: bool

record audio_track = track +
  enabled :: bool

text \<open>
  Modelled from the spec: the track-list container of media-track-list, which is not among
  the repository's files: "an ordered, mutable collection of entries exposing
  add/remove/lookup-by-identifier and a change notification". \<open>changeListeners\<close> are the
  functions subscribed to its \<^verbatim>\<open>change\<close> event, by their identity.
\<close>

record 'a track_list =
  tracks :: "'a list"
  changeListeners :: "nat list"

definition addTrack :: "'a \<Rightarrow> 'a track_list \<Rightarrow> 'a track_list" where
  "addTrack t l = l\<lparr>tracks := tracks l @ [t]\<rparr>"

definition removeTrack :: "nat \<Rightarrow> 'a track_scheme track_list \<Rightarrow> 'a track_scheme track_list" where
  "removeTrack r l = l\<lparr>tracks := filter (\<lambda>t. ref t \<noteq> r) (tracks l)\<rparr>"


definition addEventListener :: "nat \<Rightarrow> 'a track_list \<Rightarrow> 'a track_list" where
  "addEventListener f l =
     (if f \<in> set (changeListeners l) then l else l\<lparr>changeListeners := changeListeners l @ [f]\<rparr>)"

definition removeEventListener :: "nat \<Rightarrow> 'a track_list \<Rightarrow> 'a track_list" where
  "removeEventListener f l = l\<lparr>changeListeners := filter (\<lambda>g. g \<noteq> f) (changeListeners l)\<rparr>"



subsection \<open>The playback surface (the video element)\<close>

datatype text_track_mode = Disabled | Hidden | Showing

record cue =
  startTime :: real
  endTime :: real
  cue_text :: string

record text_track =
  kind :: string
  tt_label :: string
  tt_language :: string
  mode :: text_track_mode
  cues :: "cue list"

text \<open>
  A \<^verbatim>\<open><track>\<close> child of the video element. \<open>marker\<close>: the element carries the attribute
  \<^verbatim>\<open>data-hls-ponyfill\<close>. Its kind, label and srclang attributes are the kind, label and
  language of \<open>el_track\<close>, its text track.
\<close>

record track_element =
  marker :: bool
  el_track :: text_track

text \<open>
  What \<^verbatim>\<open>video.videoTracks\<close> (\<^verbatim>\<open>video.audioTracks\<close>) holds: nothing, a value that is not
  an instance of the container class, or the container at an address of the store. These
  three are properties that can be assigned. \<open>ReadOnly\<close> is the element's own attribute
  where the browser implements it: an accessor with a getter and no setter, whose value (the
  browser's list) is not an instance of the container class; assigning to it throws a
  \<^verbatim>\<open>TypeError\<close>, the class body being strict-mode code.
\<close>

datatype list_slot = NoList | OtherValue | ReadOnly | ListAt nat

record video_element =
  src_attr :: "string option"
  v_currentTime :: real
  seekable :: "(real \<times> real) list"
  children :: "track_element list"
  addedTextTracks :: "text_track list"
  v_videoTracks :: list_slot
  v_audioTracks :: list_slot

text \<open>
  \<^verbatim>\<open>video.textTracks\<close>: the text tracks of the \<^verbatim>\<open><track>\<close> children in tree order, then
  the tracks added without an element.
\<close>

definition textTracks :: "video_element \<Rightarrow> text_track list" where
  "textTracks v = map el_track (children v) @ addedTextTracks v"

text \<open>Writing the tracks back after they were changed in place (same length, same order).\<close>

definition set_textTracks :: "text_track list \<Rightarrow> video_element \<Rightarrow> video_element" where
  "set_textTracks ts v =
     v\<lparr>children := map (\<lambda>(e, t). e\<lparr>el_track := t\<rparr>) (zip (children v) ts),
       addedTextTracks := drop (length (children v)) ts\<rparr>"

subsection \<open>The wrapper\<close>

text \<open>
  The fields of an \<open>HLSPonyfill\<close> instance, its video element, and the object store:
  \<open>vlists\<close> and \<open>alists\<close> hold every \<^verbatim>\<open>VideoTrackList\<close> and \<^verbatim>\<open>AudioTrackList\<close> that exists,
  a container's address being its position; \<open>videoTrackList\<close>, \<open>audioTrackList\<close> and the
  video element's slots are addresses, so that the wrapper and the element can share one
  container. \<open>nextRef\<close> and \<open>nextFn\<close> are the identities of the next track object and of
  the next function object created.
\<close>

record ponyfill =
  video :: video_element
  hlsInstance :: "hls option"
  hlsSrc :: "string option"
  seekableTimeRanges :: bool
  videoTrackList :: "nat option"
  audioTrackList :: "nat option"
  createdVideoTracks :: "nat list"
  createdAudioTracks :: "nat list"
  onVideoTracksChangeBound :: "nat option"
  onAudioTracksChangeBound :: "nat option"
  vlists :: "video_track track_list list"
  alists :: "audio_track track_list list"
  nextRef :: nat
  nextFn :: nat

text \<open>Reading through a reference; a reference is only ever an address of the store.\<close>

definition deref :: "'a list \<Rightarrow> nat option \<Rightarrow> 'a option" where
  "deref store r =
     (case r of None \<Rightarrow> None | Some a \<Rightarrow> if a < length store then Some (store ! a) else None)"

text \<open>Mutating the object at an address in place.\<close>

definition modify :: "nat \<Rightarrow> ('a \<Rightarrow> 'a) \<Rightarrow> 'a list \<Rightarrow> 'a list" where
  "modify a f store = (if a < length store then store[a := f (store ! a)] else store)"

text \<open>\<^verbatim>\<open>Set.prototype.add\<close>, on a set kept in insertion order.\<close>

definition set_add :: "nat \<Rightarrow> nat list \<Rightarrow> nat list" where
  "set_add x xs = (if x \<in> set xs then xs else xs @ [x])"

section \<open>The operations of \<open>HLSPonyfill\<close>\<close>

subsection \<open>The engine constructor\<close>

datatype error = Error string | TypeError

text \<open>The message of the \<^verbatim>\<open>Error\<close> the getter throws.\<close>

definition no_constructor_message :: string where
  \<open>no_constructor_message =
     ''HLSPonyfill: no Hls constructor found. Assign one via HLSPonyfill.Hls = require("hls.js") (or import).''\<close>

text \<open>
  The static getter \<open>HLSPonyfill.Hls\<close>: the assigned constructor, else the global one, else
  it throws.
\<close>

definition Hls_get :: "statics \<Rightarrow> error + hls_ctor" where
  "Hls_get S =
     (case HlsConstructor S of
        Some HlsCtor \<Rightarrow> Inr HlsCtor
      | None \<Rightarrow>
         (case globalThis_Hls S of
            Some HlsCtor \<Rightarrow> Inr HlsCtor
          | None \<Rightarrow> Inl (Error no_constructor_message)))"

definition Hls_set :: "hls_ctor \<Rightarrow> statics \<Rightarrow> statics" where
  "Hls_set HlsCtor S = S\<lparr>HlsConstructor := Some HlsCtor\<rparr>"

subsection \<open>Subtitles and text tracks\<close>

definition isCorrespondingTrack :: "text_track \<Rightarrow> media_playlist \<Rightarrow> bool" where
  "isCorrespondingTrack textTrack hlsTrack \<longleftrightarrow>
     toLowerCase (mp_type hlsTrack) = kind textTrack \<and>
     mp_name hlsTrack = tt_label textTrack \<and>
     (tt_language textTrack = [] \<or> Some (tt_language textTrack) = lang hlsTrack)"

text \<open>One pass of the loop of \<open>updateTextTrack\<close> over a text track \<open>t\<close>.\<close>

definition switchMode :: "media_playlist \<Rightarrow> text_track \<Rightarrow> text_track" where
  "switchMode track t =
     (let shouldEnable = isCorrespondingTrack t track in
      if shouldEnable \<and> mode t = Disabled then t\<lparr>mode := Showing\<rparr>
      else if \<not> shouldEnable \<and> mode t \<noteq> Disabled then t\<lparr>mode := Disabled\<rparr>
      else t)"

definition updateTextTrack :: "hls \<Rightarrow> ponyfill \<Rightarrow> ponyfill" where
  "updateTextTrack h st =
     (case at_index (subtitleTracks h) (subtitleTrack h) of
        None \<Rightarrow> st
      | Some track \<Rightarrow>
          st\<lparr>video := set_textTracks (map (switchMode track) (textTracks (video st))) (video st)\<rparr>)"

text \<open>
  A subtitle rendition the engine cannot render natively (\<^verbatim>\<open>NonNativeTextTrack\<close>);
  \<open>nn_lang\<close> is \<^verbatim>\<open>t.subtitleTrack?.lang\<close>.
\<close>

record non_native_text_track =
  nn_kind :: string
  nn_label :: string
  nn_default :: bool
  nn_lang :: "string option"

text \<open>
  The \<^verbatim>\<open><track>\<close> element \<open>initNativeTextTrack\<close> builds for one rendition: marked, with the
  rendition's kind and label, its language when it has one, and showing or hidden.
\<close>

definition placeholder :: "non_native_text_track \<Rightarrow> track_element" where
  "placeholder t =
     \<lparr>marker = True,
      el_track = \<lparr>kind = nn_kind t, tt_label = nn_label t,
                  tt_language = (if falsy (nn_lang t) then [] else the (nn_lang t)),
                  mode = (if nn_default t then Showing else Hidden), cues = []\<rparr>\<rparr>"

definition initNativeTextTrack :: "non_native_text_track list \<Rightarrow> ponyfill \<Rightarrow> ponyfill" where
  "initNativeTextTrack ts st =
     st\<lparr>video := (video st)\<lparr>children := children (video st) @ map placeholder ts\<rparr>\<rparr>"

text \<open>
  Modelled from the spec: \<open>addCueToTrack\<close> (\<^verbatim>\<open>./addCueToTrack\<close>) is not among the
  repository's files. "append each cue to it, preserving order, skipping (not erroring on)
  a cue that is a duplicate of one already present (duplicate = identical start time, end
  time, and payload)".
\<close>

definition duplicate :: "cue \<Rightarrow> cue \<Rightarrow> bool" where
  "duplicate c d \<longleftrightarrow> startTime c = startTime d \<and> endTime c = endTime d \<and> cue_text c = cue_text d"

definition addCueToTrack :: "text_track \<Rightarrow> cue \<Rightarrow> text_track" where
  "addCueToTrack t c = (if list_ex (duplicate c) (cues t) then t else t\<lparr>cues := cues t @ [c]\<rparr>)"

text \<open>The loop of \<open>addCues\<close>: the first corresponding text track gets the cues, then \<^verbatim>\<open>break\<close>.\<close>

fun addToFirst :: "media_playlist \<Rightarrow> cue list \<Rightarrow> text_track list \<Rightarrow> text_track list" where
  "addToFirst currentTrack cs [] = []"
| "addToFirst currentTrack cs (nativeTrack # ts) =
     (if isCorrespondingTrack nativeTrack currentTrack
      then fold (\<lambda>cue t. addCueToTrack t cue) cs nativeTrack # ts
      else nativeTrack # addToFirst currentTrack cs ts)"

definition addCues :: "cue list \<Rightarrow> hls \<Rightarrow> ponyfill \<Rightarrow> ponyfill" where
  "addCues cs h st =
     (if subtitleTrack h = - 1 then st
      else case at_index (subtitleTracks h) (subtitleTrack h) of
        None \<Rightarrow> st
      | Some currentTrack \<Rightarrow>
          st\<lparr>video := set_textTracks (addToFirst currentTrack cs (textTracks (video st))) (video st)\<rparr>)"

subsection \<open>Teardown\<close>

text \<open>\<^verbatim>\<open>created.forEach((track) => list.removeTrack(track))\<close>\<close>

definition removeTracks :: "nat list \<Rightarrow> 'a track_scheme track_list \<Rightarrow> 'a track_scheme track_list" where
  "removeTracks created l = fold removeTrack created l"

text \<open>\<^verbatim>\<open>if (bound) list.removeEventListener('change', bound)\<close>\<close>

definition unsubscribe :: "nat option \<Rightarrow> 'a track_list \<Rightarrow> 'a track_list" where
  "unsubscribe bound l = (case bound of None \<Rightarrow> l | Some f \<Rightarrow> removeEventListener f l)"

text \<open>
  \<open>detachHls\<close>: the marked \<^verbatim>\<open><track>\<close> elements leave the video element; each bound track
  list loses this wrapper's listener and the tracks of the provenance set, which is
  cleared; the engine instance, after \<^verbatim>\<open>detachMedia()\<close> and \<^verbatim>\<open>destroy()\<close>, is dropped with
  the stored source and the seekable-range view.
\<close>

definition detachHls :: "ponyfill \<Rightarrow> ponyfill" where
  "detachHls st =
     (let st1 = st\<lparr>video := (video st)\<lparr>children := filter (\<lambda>e. \<not> marker e) (children (video st))\<rparr>\<rparr>;
          st2 = (case videoTrackList st1 of
                   None \<Rightarrow> st1
                 | Some a \<Rightarrow>
                     st1\<lparr>vlists := modify a
                            (\<lambda>l. removeTracks (createdVideoTracks st1) (unsubscribe (onVideoTracksChangeBound st1) l))
                            (vlists st1),
                         createdVideoTracks := []\<rparr>);
          st3 = (case audioTrackList st2 of
                   None \<Rightarrow> st2
                 | Some a \<Rightarrow>
                     st2\<lparr>alists := modify a
                            (\<lambda>l. removeTracks (createdAudioTracks st2) (unsubscribe (onAudioTracksChangeBound st2) l))
                            (alists st2),
                         createdAudioTracks := []\<rparr>)
      in st3\<lparr>hlsInstance := None, hlsSrc := None, seekableTimeRanges := False\<rparr>)"

definition detach :: "ponyfill \<Rightarrow> ponyfill" where
  "detach st = detachHls st"

subsection \<open>Track-list creation or reuse\<close>

text \<open>The address behind a slot when it holds a container of the required class.\<close>

definition instance_at :: "'a list \<Rightarrow> list_slot \<Rightarrow> nat option" where
  "instance_at store slot =
     (case slot of ListAt a \<Rightarrow> if a < length store then Some a else None | _ \<Rightarrow> None)"

text \<open>
  \<open>initVideoTrackList\<close>, \<open>initAudioTrackList\<close>. Without an instance behind the slot the new
  container is stored in the wrapper's field first and assigned to the element's property
  second; on a read-only attribute the assignment throws, with the field already written
  and before the listener is bound and subscribed.
\<close>

definition initVideoTrackList :: "ponyfill \<Rightarrow> (error \<times> ponyfill) + ponyfill" where
  "initVideoTrackList st =
     (let possibleList = v_videoTracks (video st);
          r = (case instance_at (vlists st) possibleList of
                 None \<Rightarrow>
                   (let st0 = st\<lparr>vlists := vlists st @ [\<lparr>tracks = [], changeListeners = []\<rparr>],
                                 videoTrackList := Some (length (vlists st))\<rparr>
                    in if possibleList = ReadOnly then Inl (TypeError, st0)
                       else Inr (st0\<lparr>video := (video st0)\<lparr>v_videoTracks := ListAt (length (vlists st))\<rparr>\<rparr>))
               | Some a \<Rightarrow> Inr (st\<lparr>videoTrackList := Some a\<rparr>))
      in case r of
           Inl e \<Rightarrow> Inl e
         | Inr st1 \<Rightarrow>
             (let bound = nextFn st1;
                  st2 = st1\<lparr>onVideoTracksChangeBound := Some bound, nextFn := Suc bound\<rparr>
              in Inr (st2\<lparr>vlists := modify (the (videoTrackList st2)) (addEventListener bound) (vlists st2)\<rparr>)))"

definition initAudioTrackList :: "ponyfill \<Rightarrow> (error \<times> ponyfill) + ponyfill" where
  "initAudioTrackList st =
     (let possibleList = v_audioTracks (video st);
          r = (case instance_at (alists st) possibleList of
                 None \<Rightarrow>
                   (let st0 = st\<lparr>alists := alists st @ [\<lparr>tracks = [], changeListeners = []\<rparr>],
                                 audioTrackList := Some (length (alists st))\<rparr>
                    in if possibleList = ReadOnly then Inl (TypeError, st0)
                       else Inr (st0\<lparr>video := (video st0)\<lparr>v_audioTracks := ListAt (length (alists st))\<rparr>\<rparr>))
               | Some a \<Rightarrow> Inr (st\<lparr>audioTrackList := Some a\<rparr>))
      in case r of
           Inl e \<Rightarrow> Inl e
         | Inr st1 \<Rightarrow>
             (let bound = nextFn st1;
                  st2 = st1\<lparr>onAudioTracksChangeBound := Some bound, nextFn := Suc bound\<rparr>
              in Inr (st2\<lparr>alists := modify (the (audioTrackList st2)) (addEventListener bound) (alists st2)\<rparr>)))"

subsection \<open>From the track lists to the engine\<close>

text \<open>The getter \<open>hls\<close>: the instance, when it is attached to this video element.\<close>

definition get_hls :: "ponyfill \<Rightarrow> hls option" where
  "get_hls st =
     (case hlsInstance st of
        None \<Rightarrow> None
      | Some h \<Rightarrow> if media h = ThisVideo then Some h else None)"

definition onVideoTracksChange :: "ponyfill \<Rightarrow> ponyfill" where
  "onVideoTracksChange st =
     (case get_hls st of
        None \<Rightarrow> st
      | Some h \<Rightarrow>
     (case deref (vlists st) (videoTrackList st) of
        None \<Rightarrow> st
      | Some list \<Rightarrow>
     (case find selected (tracks list) of
        None \<Rightarrow> st
      | Some selectedTrack \<Rightarrow>
          (let currentHlsLevel = at_index (levels h) (currentLevel h) in
           if (case currentHlsLevel of None \<Rightarrow> False | Some l \<Rightarrow> id_t selectedTrack = level_id l)
           then st
           else
             (let newLevelIndex = findIndex (\<lambda>l. level_id l = id_t selectedTrack) (levels h) in
              if newLevelIndex \<ge> 0
              then st\<lparr>hlsInstance := Some (call (SetCurrentLevel newLevelIndex) h)\<rparr>
              else st)))))"

definition onAudioTracksChange :: "ponyfill \<Rightarrow> ponyfill" where
  "onAudioTracksChange st =
     (case get_hls st of
        None \<Rightarrow> st
      | Some h \<Rightarrow>
     (case deref (alists st) (audioTrackList st) of
        None \<Rightarrow> st
      | Some list \<Rightarrow>
     (case find enabled (tracks list) of
        None \<Rightarrow> st
      | Some enabledTrack \<Rightarrow>
          (let currentHlsAudio = at_index (audioTracks h) (audioTrack h) in
           if (case currentHlsAudio of None \<Rightarrow> False | Some t \<Rightarrow> Some (mp_url t) = id_t enabledTrack)
           then st
           else
             (let idx = findIndex (\<lambda>t. Some (mp_url t) = id_t enabledTrack) (audioTracks h) in
              if idx \<ge> 0
              then st\<lparr>hlsInstance := Some (call (SetAudioTrack idx) h)\<rparr>
              else st)))))"

subsection \<open>From the engine to the track lists\<close>

definition newVideoTrack :: "hls \<Rightarrow> nat \<Rightarrow> level \<Rightarrow> nat \<Rightarrow> video_track" where
  "newVideoTrack h r l idx =
     \<lparr>ref = r, id_t = level_id l, language = attrs_LANGUAGE l, label = name l,
      track_width = width l, track_height = height l, track_bitrate = bitrate l,
      selected = (currentLevel h = int idx)\<rparr>"

definition newAudioTrack :: "hls \<Rightarrow> nat \<Rightarrow> media_playlist \<Rightarrow> nat \<Rightarrow> audio_track" where
  "newAudioTrack h r t idx =
     \<lparr>ref = r, id_t = Some (mp_url t), language = lang t, label = mp_name t,
      enabled = (audioTrack h = int idx)\<rparr>"

text \<open>
  \<^verbatim>\<open>hls.levels.forEach((level, idx) => ...)\<close> from index \<open>idx\<close> on: a new track object, added to
  the list at \<open>a\<close> and to the provenance set.
\<close>

fun addVideoTracks :: "hls \<Rightarrow> nat \<Rightarrow> level list \<Rightarrow> nat \<Rightarrow> ponyfill \<Rightarrow> ponyfill" where
  "addVideoTracks h a [] idx st = st"
| "addVideoTracks h a (l # ls) idx st =
     (let track = newVideoTrack h (nextRef st) l idx in
      addVideoTracks h a ls (Suc idx)
        (st\<lparr>nextRef := Suc (nextRef st),
            vlists := modify a (addTrack track) (vlists st),
            createdVideoTracks := set_add (ref track) (createdVideoTracks st)\<rparr>))"

fun addAudioTracks :: "hls \<Rightarrow> nat \<Rightarrow> media_playlist list \<Rightarrow> nat \<Rightarrow> ponyfill \<Rightarrow> ponyfill" where
  "addAudioTracks h a [] idx st = st"
| "addAudioTracks h a (t # ts) idx st =
     (let track = newAudioTrack h (nextRef st) t idx in
      addAudioTracks h a ts (Suc idx)
        (st\<lparr>nextRef := Suc (nextRef st),
            alists := modify a (addTrack track) (alists st),
            createdAudioTracks := set_add (ref track) (createdAudioTracks st)\<rparr>))"

definition updateTrackLists :: "hls \<Rightarrow> ponyfill \<Rightarrow> ponyfill" where
  "updateTrackLists h st =
     (if falsy (hlsSrc st) then st
      else case (videoTrackList st, audioTrackList st) of
        (Some va, Some aa) \<Rightarrow>
          (let st1 = st\<lparr>vlists := modify va (removeTracks (createdVideoTracks st)) (vlists st),
                        createdVideoTracks := []\<rparr>;
               st2 = st1\<lparr>alists := modify aa (removeTracks (createdAudioTracks st1)) (alists st1),
                         createdAudioTracks := []\<rparr>;
               st3 = addVideoTracks h va (levels h) 0 st2
           in addAudioTracks h aa (audioTracks h) 0 st3)
      | _ \<Rightarrow> st)"



subsection \<open>Attachment\<close>

text \<open>
  The helper \<open>on\<close> of \<open>initHls\<close>: the listener, and its removal at \<open>MEDIA_DETACHING\<close>.
\<close>

definition on :: "hls_event \<Rightarrow> hls_listener \<Rightarrow> hls \<Rightarrow> hls" where
  "on event listener h = call (On MEDIA_DETACHING (Off event listener)) (call (On event listener) h)"

text \<open>
  \<open>initHls\<close>. The teardown of the old session and the binding of the track lists come
  before the constructor is asked for, so when that throws the state is the one they
  left: the error is returned with it. A bind that throws ends \<open>initHls\<close> there. The subscription to the \<^verbatim>\<open>change\<close> event of
  \<^verbatim>\<open>video.textTracks\<close> is no part of the state; its removal at \<open>MEDIA_DETACHING\<close> is a
  registration on the engine like the others.
\<close>

definition initHls :: "statics \<Rightarrow> string \<Rightarrow> ponyfill \<Rightarrow> (error \<times> ponyfill) + ponyfill" where
  "initHls S src st =
     (case initVideoTrackList (detachHls st) of
        Inl e \<Rightarrow> Inl e
      | Inr st0 \<Rightarrow>
     (case initAudioTrackList st0 of
        Inl e \<Rightarrow> Inl e
      | Inr st1 \<Rightarrow>
     (case Hls_get S of
        Inl e \<Rightarrow> Inl (e, st1)
      | Inr HlsCtor \<Rightarrow>
          (let h0 = HlsCtor \<lparr>liveDurationInfinity = True, renderTextTracksNatively = False\<rparr>;
               h1 = on CUES_PARSED AddCues
                     (on NON_NATIVE_TEXT_TRACKS_FOUND InitNativeTextTrack
                     (on SUBTITLE_TRACK_SWITCH UpdateTextTrack
                     (on AUDIO_TRACK_SWITCHED UpdateAudioTrack
                     (on LEVEL_SWITCHED UpdateVideoTrack
                     (on MANIFEST_LOADED UpdateTrackLists h0)))));
               h2 = call (On MEDIA_DETACHING RemoveTextTracksChange) h1;
               h3 = attachMedia (call (LoadSource src) h2)
           in Inr (st1\<lparr>seekableTimeRanges := True, hlsInstance := Some h3, hlsSrc := Some src\<rparr>)))))"

text \<open>
  \<open>setSrc\<close>. \<open>isHlsSource\<close> and \<open>getUrlProtocol\<close> (\<^verbatim>\<open>./isHlsSource\<close>, \<^verbatim>\<open>./getUrlProtocol\<close>)
  are not among the repository's files and are parameters.
\<close>

definition setSrc ::
  "(string \<Rightarrow> bool) \<Rightarrow> (string \<Rightarrow> string) \<Rightarrow> statics \<Rightarrow> string \<Rightarrow> ponyfill \<Rightarrow> (error \<times> ponyfill) + ponyfill" where
  "setSrc isHlsSource getUrlProtocol S src st =
     (if src = [] then
        (let st1 = detachHls st in Inr (st1\<lparr>video := (video st1)\<lparr>src_attr := None\<rparr>\<rparr>))
      else if isHlsSource src then initHls S src st
      else
        (let isBlobUrl = (getUrlProtocol src = ''blob:'');
             isAttached = (case hlsInstance st of None \<Rightarrow> False | Some h \<Rightarrow> media h \<noteq> NoMedia);
             st1 = (if isAttached \<and> \<not> isBlobUrl then detachHls st else st)
         in Inr (st1\<lparr>hlsSrc := None, video := (video st1)\<lparr>src_attr := Some src\<rparr>\<rparr>)))"

text \<open>
  The setter of \<open>currentTime\<close>. \<open>clamp\<close> (\<^verbatim>\<open>./clamp\<close>) is not among the repository's files
  and is a parameter; \<^verbatim>\<open>seekable.start(0)\<close> and \<^verbatim>\<open>seekable.end(0)\<close> are read only when the
  range list is not empty.
\<close>

definition currentTime_set :: "(real \<Rightarrow> real \<Rightarrow> real \<Rightarrow> real) \<Rightarrow> real \<Rightarrow> ponyfill \<Rightarrow> ponyfill" where
  "currentTime_set clamp value st =
     (let value' =
        (if hlsSrc st \<noteq> None \<and> length (seekable (video st)) > 0
         then clamp value (fst (seekable (video st) ! 0)) (snd (seekable (video st) ! 0))
         else value)
      in st\<lparr>video := (video st)\<lparr>v_currentTime := value'\<rparr>\<rparr>)"

section \<open>Example states\<close>

text \<open>A video element with no source, no text track and no track list.\<close>

definition ex_video :: video_element where
  "ex_video =
     \<lparr>src_attr = None, v_currentTime = 0, seekable = [], children = [], addedTextTracks = [],
      v_videoTracks = NoList, v_audioTracks = NoList\<rparr>"

text \<open>\<^verbatim>\<open>new HLSPonyfill(video)\<close> on it, in a store without any container.\<close>

definition ex_new :: ponyfill where
  "ex_new =
     \<lparr>video = ex_video, hlsInstance = None, hlsSrc = None, seekableTimeRanges = False,
      videoTrackList = None, audioTrackList = None,
      createdVideoTracks = [], createdAudioTracks = [],
      onVideoTracksChangeBound = None, onAudioTracksChangeBound = None,
      vlists = [], alists = [], nextRef = 0, nextFn = 0\<rparr>"

text \<open>An engine constructor: the instance has no media, no rendition and no active index yet.\<close>

definition ex_ctor :: hls_ctor where
  "ex_ctor cfg =
     \<lparr>config = cfg, media = NoMedia, levels = [], currentLevel = - 1,
      audioTracks = [], audioTrack = - 1, subtitleTracks = [], subtitleTrack = - 1, calls = []\<rparr>"

definition ex_no_ctor :: statics where
  "ex_no_ctor = \<lparr>HlsConstructor = None, globalThis_Hls = None\<rparr>"

definition ex_statics :: statics where
  "ex_statics = Hls_set ex_ctor ex_no_ctor"

definition ex_url :: string where
  "ex_url = ''https://host/master.m3u8''"

text \<open>A clamp, for the examples.\<close>

definition ex_clamp :: "real \<Rightarrow> real \<Rightarrow> real \<Rightarrow> real" where
  "ex_clamp value lo hi = min (max value lo) hi"

text \<open>A wrapper with a stored HLS source, on a live stream seekable from 10 to 20.\<close>

definition ex_live :: ponyfill where
  "ex_live = ex_new\<lparr>hlsSrc := Some ex_url, video := ex_video\<lparr>seekable := [(10, 20)]\<rparr>\<rparr>"

text \<open>
  A video element another player has given track lists: one video track (selected) and one
  audio track (enabled), each list with that player's own change listener.
\<close>

definition ex_dash_video :: video_track where
  "ex_dash_video =
     \<lparr>ref = 0, id_t = Some ''dash-video'', language = None, label = ''dash'',
      track_width = 640, track_height = 360, track_bitrate = 800000, selected = True\<rparr>"

definition ex_dash_audio :: audio_track where
  "ex_dash_audio =
     \<lparr>ref = 1, id_t = Some ''dash-audio'', language = Some ''en'', label = ''dash'', enabled = True\<rparr>"

definition ex_shared :: ponyfill where
  "ex_shared =
     ex_new\<lparr>video := ex_video\<lparr>v_videoTracks := ListAt 0, v_audioTracks := ListAt 0\<rparr>,
            vlists := [\<lparr>tracks = [ex_dash_video], changeListeners = [0]\<rparr>],
            alists := [\<lparr>tracks = [ex_dash_audio], changeListeners = [1]\<rparr>],
            nextRef := 2, nextFn := 2\<rparr>"

text \<open>
  A video element of a browser that implements \<^verbatim>\<open>videoTracks\<close> and \<^verbatim>\<open>audioTracks\<close> itself:
  both are read-only attributes, and the lists behind them are the browser's own.
\<close>

definition ex_native :: ponyfill where
  "ex_native = ex_new\<lparr>video := ex_video\<lparr>v_videoTracks := ReadOnly, v_audioTracks := ReadOnly\<rparr>\<rparr>"

text \<open>
  A session: \<open>setSrc\<close> of an HLS source on \<open>ex_new\<close> with \<open>ex_ctor\<close> assigned.
  \<open>ex_attached\<close> is the engine instance it leaves, with the calls made on it.
\<close>

definition ex_attached :: hls where
  "ex_attached =
     \<lparr>config = \<lparr>liveDurationInfinity = True, renderTextTracksNatively = False\<rparr>,
      media = ThisVideo, levels = [], currentLevel = - 1, audioTracks = [], audioTrack = - 1,
      subtitleTracks = [], subtitleTrack = - 1,
      calls =
        [On MANIFEST_LOADED UpdateTrackLists,
         On MEDIA_DETACHING (Off MANIFEST_LOADED UpdateTrackLists),
         On LEVEL_SWITCHED UpdateVideoTrack,
         On MEDIA_DETACHING (Off LEVEL_SWITCHED UpdateVideoTrack),
         On AUDIO_TRACK_SWITCHED UpdateAudioTrack,
         On MEDIA_DETACHING (Off AUDIO_TRACK_SWITCHED UpdateAudioTrack),
         On SUBTITLE_TRACK_SWITCH UpdateTextTrack,
         On MEDIA_DETACHING (Off SUBTITLE_TRACK_SWITCH UpdateTextTrack),
         On NON_NATIVE_TEXT_TRACKS_FOUND InitNativeTextTrack,
         On MEDIA_DETACHING (Off NON_NATIVE_TEXT_TRACKS_FOUND InitNativeTextTrack),
         On CUES_PARSED AddCues,
         On MEDIA_DETACHING (Off CUES_PARSED AddCues),
         On MEDIA_DETACHING RemoveTextTracksChange,
         LoadSource ex_url, AttachMedia]\<rparr>"

definition ex_session :: ponyfill where
  "ex_session =
     \<lparr>video = ex_video\<lparr>v_videoTracks := ListAt 0, v_audioTracks := ListAt 0\<rparr>,
      hlsInstance = Some ex_attached,
      hlsSrc = Some ex_url, seekableTimeRanges = True,
      videoTrackList = Some 0, audioTrackList = Some 0,
      createdVideoTracks = [], createdAudioTracks = [],
      onVideoTracksChangeBound = Some 0, onAudioTracksChangeBound = Some 1,
      vlists = [\<lparr>tracks = [], changeListeners = [0]\<rparr>],
      alists = [\<lparr>tracks = [], changeListeners = [1]\<rparr>],
      nextRef = 0, nextFn = 2\<rparr>"

text \<open>
  The engine once the manifest is loaded: two levels and two audio renditions, the first
  of each active.
\<close>

definition ex_480 :: level where
  "ex_480 =
     \<lparr>name = ''480p'', attrs_LANGUAGE = None, width = 854, height = 480, bitrate = 1000000,
      url = [''480.m3u8'']\<rparr>"

definition ex_720 :: level where
  "ex_720 =
     \<lparr>name = ''720p'', attrs_LANGUAGE = None, width = 1280, height = 720, bitrate = 2000000,
      url = [''720.m3u8'']\<rparr>"

definition ex_en :: media_playlist where
  "ex_en = \<lparr>mp_type = ''AUDIO'', mp_name = ''English'', lang = Some ''en'', mp_url = ''en.m3u8''\<rparr>"

definition ex_fr :: media_playlist where
  "ex_fr = \<lparr>mp_type = ''AUDIO'', mp_name = ''Francais'', lang = Some ''fr'', mp_url = ''fr.m3u8''\<rparr>"

definition ex_engine :: hls where
  "ex_engine =
     ex_attached\<lparr>levels := [ex_480, ex_720], currentLevel := 0,
                 audioTracks := [ex_en, ex_fr], audioTrack := 0\<rparr>"

text \<open>The tracks \<open>updateTrackLists\<close> makes of them, and the session holding them.\<close>

definition ex_track_480 :: video_track where
  "ex_track_480 =
     \<lparr>ref = 0, id_t = Some ''480.m3u8'', language = None, label = ''480p'',
      track_width = 854, track_height = 480, track_bitrate = 1000000, selected = True\<rparr>"

definition ex_track_720 :: video_track where
  "ex_track_720 =
     \<lparr>ref = 1, id_t = Some ''720.m3u8'', language = None, label = ''720p'',
      track_width = 1280, track_height = 720, track_bitrate = 2000000, selected = False\<rparr>"

definition ex_track_en :: audio_track where
  "ex_track_en =
     \<lparr>ref = 2, id_t = Some ''en.m3u8'', language = Some ''en'', label = ''English'', enabled = True\<rparr>"

definition ex_track_fr :: audio_track where
  "ex_track_fr =
     \<lparr>ref = 3, id_t = Some ''fr.m3u8'', language = Some ''fr'', label = ''Francais'', enabled = False\<rparr>"

definition ex_populated :: ponyfill where
  "ex_populated =
     ex_session\<lparr>hlsInstance := Some ex_engine,
                createdVideoTracks := [0, 1], createdAudioTracks := [2, 3],
                vlists := [\<lparr>tracks = [ex_track_480, ex_track_720], changeListeners = [0]\<rparr>],
                alists := [\<lparr>tracks = [ex_track_en, ex_track_fr], changeListeners = [1]\<rparr>],
                nextRef := 4\<rparr>"

text \<open>The user selects 720p and enables the French audio, all else as in \<open>ex_populated\<close>.\<close>

definition ex_user_choice :: ponyfill where
  "ex_user_choice =
     ex_populated
       \<lparr>vlists := [\<lparr>tracks = [ex_track_480\<lparr>selected := False\<rparr>, ex_track_720\<lparr>selected := True\<rparr>],
                    changeListeners = [0]\<rparr>],
        alists := [\<lparr>tracks = [ex_track_en\<lparr>enabled := False\<rparr>, ex_track_fr\<lparr>enabled := True\<rparr>],
                    changeListeners = [1]\<rparr>]\<rparr>"

text \<open>
  The same once the engine's media has been detached from the element (by a call of
  \<^verbatim>\<open>detachMedia\<close> on the instance from outside the wrapper): the wrapper still holds the
  instance, and its getter \<open>hls\<close> returns \<^verbatim>\<open>undefined\<close>.
\<close>

definition ex_unattached :: ponyfill where
  "ex_unattached = ex_user_choice\<lparr>hlsInstance := Some (ex_engine\<lparr>media := NoMedia\<rparr>)\<rparr>"

text \<open>
  A session on the shared element \<open>ex_shared\<close>: \<open>setSrc\<close> of the HLS source, then one
  subtitle rendition found (a placeholder \<^verbatim>\<open><track>\<close>), then the manifest loaded. The lists
  hold the other player's track first, then the tracks of this wrapper.
\<close>

definition ex_shared_session :: ponyfill where
  "ex_shared_session =
     ex_shared\<lparr>hlsInstance := Some ex_attached, hlsSrc := Some ex_url, seekableTimeRanges := True,
               videoTrackList := Some 0, audioTrackList := Some 0,
               onVideoTracksChangeBound := Some 2, onAudioTracksChangeBound := Some 3,
               vlists := [\<lparr>tracks = [ex_dash_video], changeListeners = [0, 2]\<rparr>],
               alists := [\<lparr>tracks = [ex_dash_audio], changeListeners = [1, 3]\<rparr>],
               nextFn := 4\<rparr>"

definition ex_subtitles :: non_native_text_track where
  "ex_subtitles = \<lparr>nn_kind = ''subtitles'', nn_label = ''English'', nn_default = False, nn_lang = Some ''en''\<rparr>"

definition ex_placeholder :: track_element where
  "ex_placeholder =
     \<lparr>marker = True,
      el_track = \<lparr>kind = ''subtitles'', tt_label = ''English'', tt_language = ''en'',
                  mode = Hidden, cues = []\<rparr>\<rparr>"

definition ex_mixed :: ponyfill where
  "ex_mixed =
     ex_shared_session
       \<lparr>video := ex_video\<lparr>v_videoTracks := ListAt 0, v_audioTracks := ListAt 0,
                           children := [ex_placeholder]\<rparr>,
        hlsInstance := Some ex_engine,
        createdVideoTracks := [2, 3], createdAudioTracks := [4, 5],
        vlists := [\<lparr>tracks = [ex_dash_video, ex_track_480\<lparr>ref := 2\<rparr>, ex_track_720\<lparr>ref := 3\<rparr>],
                    changeListeners = [0, 2]\<rparr>],
        alists := [\<lparr>tracks = [ex_dash_audio, ex_track_en\<lparr>ref := 4\<rparr>, ex_track_fr\<lparr>ref := 5\<rparr>],
                    changeListeners = [1, 3]\<rparr>],
        nextRef := 6\<rparr>"

text \<open>No session, and a plain source: \<open>setSrc\<close> of an MP4 URL on \<open>ex_new\<close>.\<close>

definition ex_mp4 :: ponyfill where
  "ex_mp4 = ex_new\<lparr>video := ex_video\<lparr>src_attr := Some ''movie.mp4''\<rparr>\<rparr>"

text \<open>
  The session \<open>ex_session\<close> after two subtitle renditions were found: two placeholders,
  hidden. The engine with those renditions, the English one active. A cue.
\<close>

definition ex_subtitles_fr :: non_native_text_track where
  "ex_subtitles_fr = \<lparr>nn_kind = ''subtitles'', nn_label = ''Francais'', nn_default = False, nn_lang = Some ''fr''\<rparr>"

definition ex_placeholder_fr :: track_element where
  "ex_placeholder_fr =
     \<lparr>marker = True,
      el_track = \<lparr>kind = ''subtitles'', tt_label = ''Francais'', tt_language = ''fr'',
                  mode = Hidden, cues = []\<rparr>\<rparr>"

definition ex_captioned :: ponyfill where
  "ex_captioned =
     ex_session\<lparr>video := ex_video\<lparr>v_videoTracks := ListAt 0, v_audioTracks := ListAt 0,
                                    children := [ex_placeholder, ex_placeholder_fr]\<rparr>\<rparr>"

definition ex_rendition_en :: media_playlist where
  "ex_rendition_en =
     \<lparr>mp_type = ''SUBTITLES'', mp_name = ''English'', lang = Some ''en'', mp_url = ''subs-en.m3u8''\<rparr>"

definition ex_rendition_fr :: media_playlist where
  "ex_rendition_fr =
     \<lparr>mp_type = ''SUBTITLES'', mp_name = ''Francais'', lang = Some ''fr'', mp_url = ''subs-fr.m3u8''\<rparr>"

definition ex_subs_engine :: hls where
  "ex_subs_engine = ex_engine\<lparr>subtitleTracks := [ex_rendition_en, ex_rendition_fr], subtitleTrack := 0\<rparr>"

definition ex_cue :: cue where
  "ex_cue = \<lparr>startTime = 1, endTime = 2, cue_text = ''Hi''\<rparr>"

text \<open>
  An engine whose two levels have the same URL (two variants of one playlist that differ
  in codec and bitrate).
\<close>

definition ex_same_url_engine :: hls where
  "ex_same_url_engine =
     ex_attached\<lparr>levels := [ex_480, ex_480\<lparr>name := ''480p-hevc'', bitrate := 700000\<rparr>],
                 currentLevel := 0\<rparr>"

text \<open>The engine after it switched to the second level and the second audio rendition.\<close>

definition ex_switched :: hls where
  "ex_switched = ex_engine\<lparr>currentLevel := 1, audioTrack := 1\<rparr>"

text \<open>
  The session of \<open>ex_populated\<close> when the manifest was loaded before the engine had an
  active level and audio rendition (\<open>ex_loading\<close>: both indices \<open>- 1\<close>): no track was
  created marked. The handlers of the engine's first switch run in this state, with the
  engine as it then is: \<open>ex_engine\<close>.
\<close>

definition ex_loading :: hls where
  "ex_loading = ex_engine\<lparr>currentLevel := - 1, audioTrack := - 1\<rparr>"

definition ex_unselected :: ponyfill where
  "ex_unselected =
     ex_populated
       \<lparr>hlsInstance := Some ex_loading,
        vlists := [\<lparr>tracks = [ex_track_480\<lparr>selected := False\<rparr>, ex_track_720],
                    changeListeners = [0]\<rparr>],
        alists := [\<lparr>tracks = [ex_track_en\<lparr>enabled := False\<rparr>, ex_track_fr],
                    changeListeners = [1]\<rparr>]\<rparr>"

text \<open>
  The same session when, after the manifest was loaded and before the switch,
  \<open>setSrc\<close> was called with a \<^verbatim>\<open>blob:\<close> URL: the engine stays attached, the stored source is
  cleared. \<open>ex_isHlsSource\<close> and \<open>ex_getUrlProtocol\<close> stand for the two helpers.
\<close>

definition ex_blob_url :: string where
  "ex_blob_url = ''blob:https://host/0''"



definition ex_blob :: ponyfill where
  "ex_blob = ex_unselected\<lparr>hlsSrc := None, video := (video ex_unselected)\<lparr>src_attr := Some ex_blob_url\<rparr>\<rparr>"

text \<open>
  An engine whose active level and audio rendition are not the ones the tracks of
  \<open>ex_populated\<close> were made of.
\<close>

definition ex_1080 :: level where
  "ex_1080 =
     \<lparr>name = ''1080p'', attrs_LANGUAGE = None, width = 1920, height = 1080, bitrate = 4000000,
      url = [''1080.m3u8'']\<rparr>"

definition ex_de :: media_playlist where
  "ex_de = \<lparr>mp_type = ''AUDIO'', mp_name = ''Deutsch'', lang = Some ''de'', mp_url = ''de.m3u8''\<rparr>"

definition ex_other_engine :: hls where
  "ex_other_engine = ex_engine\<lparr>levels := [ex_1080], audioTracks := [ex_de]\<rparr>"

section \<open>Properties\<close>

subsection \<open>The engine constructor\<close>

lemma initVideoTrackList_cases:
  "(v_videoTracks (video st) \<noteq> ReadOnly \<longrightarrow>
      (\<exists>st'. initVideoTrackList st = Inr st' \<and> hlsInstance st' = hlsInstance st \<and>
             hlsSrc st' = hlsSrc st \<and> v_audioTracks (video st') = v_audioTracks (video st))) \<and>
   (\<exists>r. (initVideoTrackList st = Inl (TypeError, r) \<or> initVideoTrackList st = Inr r) \<and>
        hlsInstance r = hlsInstance st \<and> hlsSrc r = hlsSrc st)"
  by (cases "v_videoTracks (video st)")
    (simp_all add: initVideoTrackList_def instance_at_def Let_def)

lemma initAudioTrackList_cases:
  "(v_audioTracks (video st) \<noteq> ReadOnly \<longrightarrow>
      (\<exists>st'. initAudioTrackList st = Inr st' \<and> hlsInstance st' = hlsInstance st \<and>
             hlsSrc st' = hlsSrc st)) \<and>
   (\<exists>r. (initAudioTrackList st = Inl (TypeError, r) \<or> initAudioTrackList st = Inr r) \<and>
        hlsInstance r = hlsInstance st \<and> hlsSrc r = hlsSrc st)"
  by (cases "v_audioTracks (video st)")
    (simp_all add: initAudioTrackList_def instance_at_def Let_def)

lemma detachHls_no_session:
  "hlsInstance (detachHls st) = None" "hlsSrc (detachHls st) = None"
  "v_videoTracks (video (detachHls st)) = v_videoTracks (video st)"
  "v_audioTracks (video (detachHls st)) = v_audioTracks (video st)"
  by (simp_all add: detachHls_def Let_def split: option.splits)

text \<open>
  With both slots assignable the two binds of \<open>initHls\<close> return, and leave no instance and
  no stored source.
\<close>

lemma bound_lists:
  assumes "v_videoTracks (video st) \<noteq> ReadOnly" and "v_audioTracks (video st) \<noteq> ReadOnly"
  shows "\<exists>st0 st1. initVideoTrackList (detachHls st) = Inr st0 \<and> initAudioTrackList st0 = Inr st1 \<and>
           hlsInstance st1 = None \<and> hlsSrc st1 = None"
proof -
  from assms(1) initVideoTrackList_cases [of "detachHls st"]
  obtain st0 where 0: "initVideoTrackList (detachHls st) = Inr st0" "hlsInstance st0 = None"
      "hlsSrc st0 = None" "v_audioTracks (video st0) = v_audioTracks (video st)"
    by (auto simp: detachHls_no_session)
  from assms(2) 0(4) initAudioTrackList_cases [of st0]
  obtain st1 where 1: "initAudioTrackList st0 = Inr st1" "hlsInstance st1 = hlsInstance st0"
      "hlsSrc st1 = hlsSrc st0"
    by auto
  with 0 show ?thesis by simp
qed

text \<open>
  Whatever the slots are, \<open>initHls\<close> without a constructor returns an error, and the state
  it returns it with has no instance and no stored source.
\<close>

lemma initHls_fails:
  assumes "Hls_get S = Inl e"
  shows "\<exists>e' st'. initHls S src st = Inl (e', st') \<and> hlsInstance st' = None \<and> hlsSrc st' = None"
proof -
  from initVideoTrackList_cases [of "detachHls st"]
  obtain r where r: "initVideoTrackList (detachHls st) = Inl (TypeError, r) \<or>
      initVideoTrackList (detachHls st) = Inr r" "hlsInstance r = None" "hlsSrc r = None"
    by (auto simp: detachHls_no_session)
  from initAudioTrackList_cases [of r]
  obtain r' where r': "initAudioTrackList r = Inl (TypeError, r') \<or> initAudioTrackList r = Inr r'"
      "hlsInstance r' = hlsInstance r" "hlsSrc r' = hlsSrc r"
    by auto
  from r r' assms show ?thesis
    by (auto simp: initHls_def)
qed

text \<open>
  C8. With no constructor assigned and none on the global object, the getter returns the
  error; \<open>initHls\<close> returns an error as its own result, with no engine instance and no
  stored source, and so does \<open>setSrc\<close> on an HLS source; the error is the getter's whenever
  the bind that comes before the getter returns (both slots of the element assignable). An
  assigned constructor is what the getter returns, the global one when none is assigned;
  whenever the getter returns a constructor and the bind returns, \<open>initHls\<close> returns a
  state, with the source stored and the instance attached.
\<close>

theorem Hls_constructor_required:
  "(HlsConstructor S = None \<and> globalThis_Hls S = None \<longrightarrow>
      Hls_get S = Inl (Error no_constructor_message) \<and>
      (\<exists>e st'. initHls S src st = Inl (e, st') \<and> hlsInstance st' = None \<and> hlsSrc st' = None) \<and>
      (v_videoTracks (video st) \<noteq> ReadOnly \<and> v_audioTracks (video st) \<noteq> ReadOnly \<longrightarrow>
         (\<exists>st'. initHls S src st = Inl (Error no_constructor_message, st') \<and>
                hlsInstance st' = None \<and> hlsSrc st' = None)) \<and>
      (src \<noteq> [] \<and> isHlsSource src \<longrightarrow>
         setSrc isHlsSource getUrlProtocol S src st = initHls S src st)) \<and>
   (HlsConstructor S = Some c \<longrightarrow> Hls_get S = Inr c) \<and>
   (HlsConstructor S = None \<and> globalThis_Hls S = Some c \<longrightarrow> Hls_get S = Inr c) \<and>
   Hls_get (Hls_set c S) = Inr c \<and>
   (Hls_get S = Inr c \<and>
    v_videoTracks (video st) \<noteq> ReadOnly \<and> v_audioTracks (video st) \<noteq> ReadOnly \<longrightarrow>
      (\<exists>st'. initHls S src st = Inr st' \<and> hlsSrc st' = Some src \<and>
             (\<exists>h. hlsInstance st' = Some h \<and> media h = ThisVideo)))"
proof (intro conjI impI)
  assume none: "HlsConstructor S = None \<and> globalThis_Hls S = None"
  then show get: "Hls_get S = Inl (Error no_constructor_message)"
    by (simp add: Hls_get_def)
  then show "\<exists>e st'. initHls S src st = Inl (e, st') \<and> hlsInstance st' = None \<and> hlsSrc st' = None"
    by (rule initHls_fails)
  assume "v_videoTracks (video st) \<noteq> ReadOnly \<and> v_audioTracks (video st) \<noteq> ReadOnly"
  then obtain st0 st1 where "initVideoTrackList (detachHls st) = Inr st0"
      "initAudioTrackList st0 = Inr st1" "hlsInstance st1 = None" "hlsSrc st1 = None"
    using bound_lists by blast
  with get show "\<exists>st'. initHls S src st = Inl (Error no_constructor_message, st') \<and>
      hlsInstance st' = None \<and> hlsSrc st' = None"
    by (simp add: initHls_def)
next
  assume "src \<noteq> [] \<and> isHlsSource src"
  then show "setSrc isHlsSource getUrlProtocol S src st = initHls S src st"
    by (simp add: setSrc_def)
next
  assume "HlsConstructor S = Some c"
  then show "Hls_get S = Inr c" by (simp add: Hls_get_def)
next
  assume "HlsConstructor S = None \<and> globalThis_Hls S = Some c"
  then show "Hls_get S = Inr c" by (simp add: Hls_get_def)
next
  show "Hls_get (Hls_set c S) = Inr c" by (simp add: Hls_get_def Hls_set_def)
next
  assume a: "Hls_get S = Inr c \<and>
    v_videoTracks (video st) \<noteq> ReadOnly \<and> v_audioTracks (video st) \<noteq> ReadOnly"
  then obtain st0 st1 where "initVideoTrackList (detachHls st) = Inr st0"
      "initAudioTrackList st0 = Inr st1"
    using bound_lists by blast
  with a show "\<exists>st'. initHls S src st = Inr st' \<and> hlsSrc st' = Some src \<and>
      (\<exists>h. hlsInstance st' = Some h \<and> media h = ThisVideo)"
    by (simp add: initHls_def Let_def attachMedia_def)
qed

theorem Hls_constructor_required_witness:
  "Hls_get ex_no_ctor = Inl (Error no_constructor_message) \<and>
   (\<exists>st'. initHls ex_no_ctor ex_url ex_new = Inl (Error no_constructor_message, st')) \<and>
   (\<exists>st'. setSrc (\<lambda>s. True) (\<lambda>s. ''https:'') ex_no_ctor ex_url ex_new
            = Inl (Error no_constructor_message, st')) \<and>
   Hls_get ex_statics = Inr ex_ctor \<and>
   (\<exists>st'. initHls ex_statics ex_url ex_new = Inr st' \<and> hlsSrc st' = Some ex_url)"
proof -
  have none: "HlsConstructor ex_no_ctor = None \<and> globalThis_Hls ex_no_ctor = None"
    by (simp add: ex_no_ctor_def)
  have some: "HlsConstructor ex_statics = Some ex_ctor"
    by (simp add: ex_statics_def Hls_set_def)
  have url: "ex_url \<noteq> [] \<and> (\<lambda>s. True) ex_url"
    by (simp add: ex_url_def)
  have slots: "v_videoTracks (video ex_new) \<noteq> ReadOnly \<and> v_audioTracks (video ex_new) \<noteq> ReadOnly"
    by (simp add: ex_new_def ex_video_def)
  note a = Hls_constructor_required
    [of ex_no_ctor ex_url ex_new "\<lambda>s. True" "\<lambda>s. ''https:''" ex_ctor]
  note b = Hls_constructor_required
    [of ex_statics ex_url ex_new "\<lambda>s. True" "\<lambda>s. ''https:''" ex_ctor]
  from a none url slots have 1: "Hls_get ex_no_ctor = Inl (Error no_constructor_message)"
    and 2: "\<exists>st'. initHls ex_no_ctor ex_url ex_new = Inl (Error no_constructor_message, st')"
    and 3: "setSrc (\<lambda>s. True) (\<lambda>s. ''https:'') ex_no_ctor ex_url ex_new = initHls ex_no_ctor ex_url ex_new"
    by blast+
  from b some have 4: "Hls_get ex_statics = Inr ex_ctor" by blast
  with b slots have 5: "\<exists>st'. initHls ex_statics ex_url ex_new = Inr st' \<and> hlsSrc st' = Some ex_url"
    by blast
  from 1 2 3 4 5 show ?thesis by simp
qed
subsection \<open>Seeking\<close>

text \<open>
  C10. With a stored HLS source (one that is not \<^verbatim>\<open>undefined\<close>) and a seekable range list
  that is not empty, the setter of \<open>currentTime\<close> assigns \<open>clamp\<close> of the value, the start
  and the end of the first range; with no stored source or no range it assigns the value
  itself. Nothing else changes.
\<close>

theorem currentTime_set_clamps:
  "(hlsSrc st \<noteq> None \<and> seekable (video st) = (lo, hi) # rs \<longrightarrow>
      currentTime_set clamp value st = st\<lparr>video := (video st)\<lparr>v_currentTime := clamp value lo hi\<rparr>\<rparr>) \<and>
   (hlsSrc st = None \<or> seekable (video st) = [] \<longrightarrow>
      currentTime_set clamp value st = st\<lparr>video := (video st)\<lparr>v_currentTime := value\<rparr>\<rparr>)"
  by (auto simp: currentTime_set_def)

theorem currentTime_set_clamps_witness:
  "v_currentTime (video (currentTime_set ex_clamp 25 ex_live)) = 20 \<and>
   v_currentTime (video (currentTime_set ex_clamp 25 ex_new)) = 25"
proof -
  have live: "hlsSrc ex_live \<noteq> None \<and> seekable (video ex_live) = (10, 20) # []"
    by (simp add: ex_live_def ex_new_def ex_video_def)
  have new: "hlsSrc ex_new = None \<or> seekable (video ex_new) = []"
    by (simp add: ex_new_def)
  from live currentTime_set_clamps [of ex_live 10 20 "[]" ex_clamp 25]
  have "v_currentTime (video (currentTime_set ex_clamp 25 ex_live)) = ex_clamp 25 10 20"
    by simp
  moreover from new currentTime_set_clamps [of ex_new 10 20 "[]" ex_clamp 25]
  have "v_currentTime (video (currentTime_set ex_clamp 25 ex_new)) = 25"
    by simp
  ultimately show ?thesis by (simp add: ex_clamp_def)
qed

subsection \<open>Track-list creation or reuse\<close>

text \<open>
  Reuse. When the element's slot holds a container of the class (at address \<open>a\<close>), binding
  takes that container: the element is left as it is, no container is created, the tracks
  of the container are the ones it had, and its change listeners are the ones it had
  followed by one new function (the function object is new: it is not yet subscribed),
  which is stored in \<open>onVideoTracksChangeBound\<close>.
\<close>

lemma initVideoTrackList_reuse:
  assumes "v_videoTracks (video st) = ListAt a" and "a < length (vlists st)"
    and "nextFn st \<notin> set (changeListeners (vlists st ! a))"
  shows "initVideoTrackList st =
     Inr (st\<lparr>videoTrackList := Some a, onVideoTracksChangeBound := Some (nextFn st),
             nextFn := Suc (nextFn st),
             vlists := (vlists st)[a := (vlists st ! a)\<lparr>changeListeners :=
                         changeListeners (vlists st ! a) @ [nextFn st]\<rparr>]\<rparr>)"
  using assms
  by (simp add: initVideoTrackList_def instance_at_def modify_def addEventListener_def Let_def)

lemma initAudioTrackList_reuse:
  assumes "v_audioTracks (video st) = ListAt a" and "a < length (alists st)"
    and "nextFn st \<notin> set (changeListeners (alists st ! a))"
  shows "initAudioTrackList st =
     Inr (st\<lparr>audioTrackList := Some a, onAudioTracksChangeBound := Some (nextFn st),
             nextFn := Suc (nextFn st),
             alists := (alists st)[a := (alists st ! a)\<lparr>changeListeners :=
                         changeListeners (alists st ! a) @ [nextFn st]\<rparr>]\<rparr>)"
  using assms
  by (simp add: initAudioTrackList_def instance_at_def modify_def addEventListener_def Let_def)

text \<open>
  Creation on an assignable slot. When the slot holds no container of the class and can be
  assigned, a new, empty container is appended to the store, the slot is set to its
  address, and the one new function is its only change listener.
\<close>

lemma initVideoTrackList_create:
  assumes "instance_at (vlists st) (v_videoTracks (video st)) = None"
    and "v_videoTracks (video st) \<noteq> ReadOnly"
  shows "initVideoTrackList st =
     Inr (st\<lparr>vlists := vlists st @ [\<lparr>tracks = [], changeListeners = [nextFn st]\<rparr>],
             videoTrackList := Some (length (vlists st)),
             video := (video st)\<lparr>v_videoTracks := ListAt (length (vlists st))\<rparr>,
             onVideoTracksChangeBound := Some (nextFn st), nextFn := Suc (nextFn st)\<rparr>)"
  using assms
  by (simp add: initVideoTrackList_def modify_def addEventListener_def Let_def)

lemma initAudioTrackList_create:
  assumes "instance_at (alists st) (v_audioTracks (video st)) = None"
    and "v_audioTracks (video st) \<noteq> ReadOnly"
  shows "initAudioTrackList st =
     Inr (st\<lparr>alists := alists st @ [\<lparr>tracks = [], changeListeners = [nextFn st]\<rparr>],
             audioTrackList := Some (length (alists st)),
             video := (video st)\<lparr>v_audioTracks := ListAt (length (alists st))\<rparr>,
             onAudioTracksChangeBound := Some (nextFn st), nextFn := Suc (nextFn st)\<rparr>)"
  using assms
  by (simp add: initAudioTrackList_def modify_def addEventListener_def Let_def)

text \<open>
  Creation on a read-only attribute. The new container is created and stored in the
  wrapper's field; the assignment to the element's attribute then throws: the attribute is
  what it was, no function is bound, stored or subscribed, and the new container has no
  listener.
\<close>

lemma initVideoTrackList_read_only:
  assumes "v_videoTracks (video st) = ReadOnly"
  shows "initVideoTrackList st =
     Inl (TypeError, st\<lparr>vlists := vlists st @ [\<lparr>tracks = [], changeListeners = []\<rparr>],
                        videoTrackList := Some (length (vlists st))\<rparr>)"
  using assms by (simp add: initVideoTrackList_def instance_at_def Let_def)

lemma initAudioTrackList_read_only:
  assumes "v_audioTracks (video st) = ReadOnly"
  shows "initAudioTrackList st =
     Inl (TypeError, st\<lparr>alists := alists st @ [\<lparr>tracks = [], changeListeners = []\<rparr>],
                        audioTrackList := Some (length (alists st))\<rparr>)"
  using assms by (simp add: initAudioTrackList_def instance_at_def Let_def)

text \<open>
  On the element another player has given track lists, both binds reuse the list, with
  that player's listener and track kept; on the element without lists both create one.
\<close>

lemma bind_examples:
  "initVideoTrackList ex_shared =
     Inr (ex_shared\<lparr>videoTrackList := Some 0, onVideoTracksChangeBound := Some 2, nextFn := 3,
                    vlists := [\<lparr>tracks = [ex_dash_video], changeListeners = [0, 2]\<rparr>]\<rparr>)"
  "initAudioTrackList ex_shared =
     Inr (ex_shared\<lparr>audioTrackList := Some 0, onAudioTracksChangeBound := Some 2, nextFn := 3,
                    alists := [\<lparr>tracks = [ex_dash_audio], changeListeners = [1, 2]\<rparr>]\<rparr>)"
  "initVideoTrackList ex_new =
     Inr (ex_new\<lparr>vlists := [\<lparr>tracks = [], changeListeners = [0]\<rparr>], videoTrackList := Some 0,
                 video := ex_video\<lparr>v_videoTracks := ListAt 0\<rparr>,
                 onVideoTracksChangeBound := Some 0, nextFn := 1\<rparr>)"
  "initAudioTrackList ex_new =
     Inr (ex_new\<lparr>alists := [\<lparr>tracks = [], changeListeners = [0]\<rparr>], audioTrackList := Some 0,
                 video := ex_video\<lparr>v_audioTracks := ListAt 0\<rparr>,
                 onAudioTracksChangeBound := Some 0, nextFn := 1\<rparr>)"
proof -
  have v: "v_videoTracks (video ex_shared) = ListAt 0" "0 < length (vlists ex_shared)"
      "nextFn ex_shared \<notin> set (changeListeners (vlists ex_shared ! 0))"
    and a: "v_audioTracks (video ex_shared) = ListAt 0" "0 < length (alists ex_shared)"
      "nextFn ex_shared \<notin> set (changeListeners (alists ex_shared ! 0))"
    by (simp_all add: ex_shared_def ex_new_def ex_video_def)
  have n: "instance_at (vlists ex_new) (v_videoTracks (video ex_new)) = None"
      "v_videoTracks (video ex_new) \<noteq> ReadOnly"
      "instance_at (alists ex_new) (v_audioTracks (video ex_new)) = None"
      "v_audioTracks (video ex_new) \<noteq> ReadOnly"
    by (simp_all add: ex_new_def ex_video_def instance_at_def)
  show "initVideoTrackList ex_shared =
     Inr (ex_shared\<lparr>videoTrackList := Some 0, onVideoTracksChangeBound := Some 2, nextFn := 3,
                    vlists := [\<lparr>tracks = [ex_dash_video], changeListeners = [0, 2]\<rparr>]\<rparr>)"
    by (simp add: initVideoTrackList_reuse [OF v]) (simp add: ex_shared_def ex_new_def)
  show "initAudioTrackList ex_shared =
     Inr (ex_shared\<lparr>audioTrackList := Some 0, onAudioTracksChangeBound := Some 2, nextFn := 3,
                    alists := [\<lparr>tracks = [ex_dash_audio], changeListeners = [1, 2]\<rparr>]\<rparr>)"
    by (simp add: initAudioTrackList_reuse [OF a]) (simp add: ex_shared_def ex_new_def)
  show "initVideoTrackList ex_new =
     Inr (ex_new\<lparr>vlists := [\<lparr>tracks = [], changeListeners = [0]\<rparr>], videoTrackList := Some 0,
                 video := ex_video\<lparr>v_videoTracks := ListAt 0\<rparr>,
                 onVideoTracksChangeBound := Some 0, nextFn := 1\<rparr>)"
    by (simp add: initVideoTrackList_create [OF n(1,2)]) (simp add: ex_new_def)
  show "initAudioTrackList ex_new =
     Inr (ex_new\<lparr>alists := [\<lparr>tracks = [], changeListeners = [0]\<rparr>], audioTrackList := Some 0,
                 video := ex_video\<lparr>v_audioTracks := ListAt 0\<rparr>,
                 onAudioTracksChangeBound := Some 0, nextFn := 1\<rparr>)"
    by (simp add: initAudioTrackList_create [OF n(3,4)]) (simp add: ex_new_def)
qed

text \<open>
  C9. On a video element whose \<^verbatim>\<open>videoTracks\<close> and \<^verbatim>\<open>audioTracks\<close> are the browser's own
  read-only attributes, neither holding a container of the class, the bind of either list
  throws a \<^verbatim>\<open>TypeError\<close>: the new container exists and is in the wrapper's field, but it is not
  published on the element (the attribute is what it was), it has no change listener, and
  no bound function is stored. \<open>setSrc\<close> of an HLS source, with a constructor assigned,
  ends with that error at the bind of the video list, before the audio list is bound and
  before an engine instance exists.
\<close>

theorem bind_throws_on_read_only_attribute:
  "initVideoTrackList ex_native =
     Inl (TypeError, ex_native\<lparr>vlists := [\<lparr>tracks = [], changeListeners = []\<rparr>],
                               videoTrackList := Some 0\<rparr>) \<and>
   initAudioTrackList ex_native =
     Inl (TypeError, ex_native\<lparr>alists := [\<lparr>tracks = [], changeListeners = []\<rparr>],
                               audioTrackList := Some 0\<rparr>) \<and>
   setSrc (\<lambda>s. True) (\<lambda>s. ''https:'') ex_statics ex_url ex_native =
     Inl (TypeError, ex_native\<lparr>vlists := [\<lparr>tracks = [], changeListeners = []\<rparr>],
                               videoTrackList := Some 0\<rparr>) \<and>
   v_videoTracks (video ex_native) = ReadOnly \<and>
   onVideoTracksChangeBound ex_native = None \<and> audioTrackList ex_native = None \<and>
   hlsInstance ex_native = None"
  by (simp add: ex_native_def ex_new_def ex_video_def ex_url_def setSrc_def initHls_def
      detachHls_def initVideoTrackList_def initAudioTrackList_def instance_at_def Let_def)
subsection \<open>The example states are states of the code\<close>

lemma ex_session_reached:
  "setSrc (\<lambda>s. True) (\<lambda>s. ''https:'') ex_statics ex_url ex_new = Inr ex_session"
  by (simp add: ex_session_def ex_attached_def setSrc_def initHls_def ex_url_def ex_statics_def
      Hls_set_def ex_no_ctor_def Hls_get_def ex_new_def ex_video_def detachHls_def
      initVideoTrackList_def initAudioTrackList_def Let_def instance_at_def modify_def
      addEventListener_def on_def call_def attachMedia_def ex_ctor_def)

lemma ex_populated_reached:
  "updateTrackLists ex_engine (ex_session\<lparr>hlsInstance := Some ex_engine\<rparr>) = ex_populated"
  by (simp add: ex_populated_def ex_session_def ex_engine_def updateTrackLists_def falsy_def
      ex_url_def removeTracks_def modify_def Let_def newVideoTrack_def newAudioTrack_def
      addTrack_def set_add_def level_id_def ex_480_def ex_720_def ex_en_def ex_fr_def
      ex_track_480_def ex_track_720_def ex_track_en_def ex_track_fr_def)

subsection \<open>From the track lists to the engine\<close>

lemma findIndex_ge: "- 1 \<le> findIndex P xs"
  by (induction xs) (auto simp: Let_def)

lemma findIndex_none: "findIndex P xs < 0 \<longleftrightarrow> (\<forall>x\<in>set xs. \<not> P x)"
  using findIndex_ge [of P]
  by (induction xs) (auto simp: Let_def)

lemma findIndex_first:
  "\<exists>x\<in>set xs. P x \<Longrightarrow>
     0 \<le> findIndex P xs \<and> nat (findIndex P xs) < length xs \<and> P (xs ! nat (findIndex P xs)) \<and>
     (\<forall>j < nat (findIndex P xs). \<not> P (xs ! j))"
proof (induction xs)
  case Nil
  then show ?case by simp
next
  case (Cons x xs)
  show ?case
  proof (cases "P x")
    case True
    then show ?thesis by simp
  next
    case False
    with Cons.prems have ex: "\<exists>x\<in>set xs. P x" by simp
    note ih = Cons.IH [OF ex]
    from ih have nn: "\<not> findIndex P xs < 0" by simp
    have n: "nat (findIndex P xs + 1) = Suc (nat (findIndex P xs))" using ih by arith
    show ?thesis
      using False ih nn
      by (auto simp: Let_def n nth_Cons less_Suc_eq_0_disj split: nat.splits)
  qed
qed

lemma onVideoTracksChange_cases:
  assumes "get_hls st = Some h" and "deref (vlists st) (videoTrackList st) = Some list"
  shows "find selected (tracks list) = None \<Longrightarrow> onVideoTracksChange st = st"
    and "find selected (tracks list) = Some t \<Longrightarrow> at_index (levels h) (currentLevel h) = Some cur \<Longrightarrow>
           id_t t = level_id cur \<Longrightarrow> onVideoTracksChange st = st"
    and "find selected (tracks list) = Some t \<Longrightarrow> \<forall>l\<in>set (levels h). level_id l \<noteq> id_t t \<Longrightarrow>
           onVideoTracksChange st = st"
    and "find selected (tracks list) = Some t \<Longrightarrow>
           \<not> (\<exists>cur. at_index (levels h) (currentLevel h) = Some cur \<and> id_t t = level_id cur) \<Longrightarrow>
           \<exists>l\<in>set (levels h). level_id l = id_t t \<Longrightarrow>
           onVideoTracksChange st
             = st\<lparr>hlsInstance := Some (call (SetCurrentLevel (findIndex (\<lambda>l. level_id l = id_t t) (levels h))) h)\<rparr>"
proof -
  show "find selected (tracks list) = None \<Longrightarrow> onVideoTracksChange st = st"
    using assms by (simp add: onVideoTracksChange_def)
  show "find selected (tracks list) = Some t \<Longrightarrow> at_index (levels h) (currentLevel h) = Some cur \<Longrightarrow>
           id_t t = level_id cur \<Longrightarrow> onVideoTracksChange st = st"
    using assms by (simp add: onVideoTracksChange_def)
  show "find selected (tracks list) = Some t \<Longrightarrow> \<forall>l\<in>set (levels h). level_id l \<noteq> id_t t \<Longrightarrow>
           onVideoTracksChange st = st"
    using assms findIndex_none [of "\<lambda>l. level_id l = id_t t" "levels h"]
    by (auto simp add: onVideoTracksChange_def Let_def split: option.splits)
  show "find selected (tracks list) = Some t \<Longrightarrow>
           \<not> (\<exists>cur. at_index (levels h) (currentLevel h) = Some cur \<and> id_t t = level_id cur) \<Longrightarrow>
           \<exists>l\<in>set (levels h). level_id l = id_t t \<Longrightarrow>
           onVideoTracksChange st
             = st\<lparr>hlsInstance := Some (call (SetCurrentLevel (findIndex (\<lambda>l. level_id l = id_t t) (levels h))) h)\<rparr>"
    using assms findIndex_first [of "levels h" "\<lambda>l. level_id l = id_t t"]
    by (auto simp add: onVideoTracksChange_def Let_def split: option.splits)
qed


lemma onAudioTracksChange_cases:
  assumes "get_hls st = Some h" and "deref (alists st) (audioTrackList st) = Some list"
  shows "find enabled (tracks list) = None \<Longrightarrow> onAudioTracksChange st = st"
    and "find enabled (tracks list) = Some t \<Longrightarrow> at_index (audioTracks h) (audioTrack h) = Some cur \<Longrightarrow>
           id_t t = Some (mp_url cur) \<Longrightarrow> onAudioTracksChange st = st"
    and "find enabled (tracks list) = Some t \<Longrightarrow> \<forall>l\<in>set (audioTracks h). Some (mp_url l) \<noteq> id_t t \<Longrightarrow>
           onAudioTracksChange st = st"
    and "find enabled (tracks list) = Some t \<Longrightarrow>
           \<not> (\<exists>cur. at_index (audioTracks h) (audioTrack h) = Some cur \<and> id_t t = Some (mp_url cur)) \<Longrightarrow>
           \<exists>l\<in>set (audioTracks h). Some (mp_url l) = id_t t \<Longrightarrow>
           onAudioTracksChange st
             = st\<lparr>hlsInstance := Some (call (SetAudioTrack (findIndex (\<lambda>l. Some (mp_url l) = id_t t) (audioTracks h))) h)\<rparr>"
proof -
  show "find enabled (tracks list) = None \<Longrightarrow> onAudioTracksChange st = st"
    using assms by (simp add: onAudioTracksChange_def)
  show "find enabled (tracks list) = Some t \<Longrightarrow> at_index (audioTracks h) (audioTrack h) = Some cur \<Longrightarrow>
           id_t t = Some (mp_url cur) \<Longrightarrow> onAudioTracksChange st = st"
    using assms by (simp add: onAudioTracksChange_def)
  show "find enabled (tracks list) = Some t \<Longrightarrow> \<forall>l\<in>set (audioTracks h). Some (mp_url l) \<noteq> id_t t \<Longrightarrow>
           onAudioTracksChange st = st"
    using assms findIndex_none [of "\<lambda>l. Some (mp_url l) = id_t t" "audioTracks h"]
    by (auto simp add: onAudioTracksChange_def Let_def split: option.splits)
  show "find enabled (tracks list) = Some t \<Longrightarrow>
           \<not> (\<exists>cur. at_index (audioTracks h) (audioTrack h) = Some cur \<and> id_t t = Some (mp_url cur)) \<Longrightarrow>
           \<exists>l\<in>set (audioTracks h). Some (mp_url l) = id_t t \<Longrightarrow>
           onAudioTracksChange st
             = st\<lparr>hlsInstance := Some (call (SetAudioTrack (findIndex (\<lambda>l. Some (mp_url l) = id_t t) (audioTracks h))) h)\<rparr>"
    using assms findIndex_first [of "audioTracks h" "\<lambda>l. Some (mp_url l) = id_t t"]
    by (auto simp add: onAudioTracksChange_def Let_def split: option.splits)
qed

text \<open>
  C3, as amended. A change of the video track list, handled while the engine instance is attached to
  this element (the getter \<open>hls\<close> returns it) and the list is bound. If no track is
  selected, or the first selected track has the identifier of the engine's active level,
  or no level has that identifier, the state is the same afterwards: nothing is written to
  the engine. Otherwise the one effect is the write of \<open>currentLevel\<close>, one more entry at the
  end of the engine's call log, and the index written is that of the first level with the
  identifier. With no engine instance attached to this element, or no bound list, the
  state is the same afterwards in every case. The same for the audio list with
  \<open>audioTrack\<close>.
\<close>

theorem user_selection_commands_engine:
  "(get_hls st = None \<or> deref (vlists st) (videoTrackList st) = None \<longrightarrow> onVideoTracksChange st = st) \<and>
   (get_hls st = Some h \<and> deref (vlists st) (videoTrackList st) = Some vl \<longrightarrow>
      (find selected (tracks vl) = None \<longrightarrow> onVideoTracksChange st = st) \<and>
      (find selected (tracks vl) = Some vt \<longrightarrow>
         ((\<exists>cur. at_index (levels h) (currentLevel h) = Some cur \<and> id_t vt = level_id cur)
            \<longrightarrow> onVideoTracksChange st = st) \<and>
         ((\<forall>l\<in>set (levels h). level_id l \<noteq> id_t vt) \<longrightarrow> onVideoTracksChange st = st) \<and>
         (\<not> (\<exists>cur. at_index (levels h) (currentLevel h) = Some cur \<and> id_t vt = level_id cur) \<and>
          (\<exists>l\<in>set (levels h). level_id l = id_t vt) \<longrightarrow>
            (let i = findIndex (\<lambda>l. level_id l = id_t vt) (levels h) in
             onVideoTracksChange st
               = st\<lparr>hlsInstance := Some (h\<lparr>calls := calls h @ [SetCurrentLevel i]\<rparr>)\<rparr> \<and>
             0 \<le> i \<and> nat i < length (levels h) \<and> level_id (levels h ! nat i) = id_t vt \<and>
             (\<forall>j < nat i. level_id (levels h ! j) \<noteq> id_t vt))))) \<and>
   (get_hls st = None \<or> deref (alists st) (audioTrackList st) = None \<longrightarrow> onAudioTracksChange st = st) \<and>
   (get_hls st = Some h \<and> deref (alists st) (audioTrackList st) = Some al \<longrightarrow>
      (find enabled (tracks al) = None \<longrightarrow> onAudioTracksChange st = st) \<and>
      (find enabled (tracks al) = Some aut \<longrightarrow>
         ((\<exists>cur. at_index (audioTracks h) (audioTrack h) = Some cur \<and> id_t aut = Some (mp_url cur))
            \<longrightarrow> onAudioTracksChange st = st) \<and>
         ((\<forall>l\<in>set (audioTracks h). Some (mp_url l) \<noteq> id_t aut) \<longrightarrow> onAudioTracksChange st = st) \<and>
         (\<not> (\<exists>cur. at_index (audioTracks h) (audioTrack h) = Some cur \<and> id_t aut = Some (mp_url cur)) \<and>
          (\<exists>l\<in>set (audioTracks h). Some (mp_url l) = id_t aut) \<longrightarrow>
            (let i = findIndex (\<lambda>l. Some (mp_url l) = id_t aut) (audioTracks h) in
             onAudioTracksChange st
               = st\<lparr>hlsInstance := Some (h\<lparr>calls := calls h @ [SetAudioTrack i]\<rparr>)\<rparr> \<and>
             0 \<le> i \<and> nat i < length (audioTracks h) \<and> Some (mp_url (audioTracks h ! nat i)) = id_t aut \<and>
             (\<forall>j < nat i. Some (mp_url (audioTracks h ! j)) \<noteq> id_t aut)))))"
proof (intro conjI impI)
  assume "get_hls st = None \<or> deref (vlists st) (videoTrackList st) = None"
  then show "onVideoTracksChange st = st"
    by (auto simp: onVideoTracksChange_def split: option.splits)
next
  assume "get_hls st = None \<or> deref (alists st) (audioTrackList st) = None"
  then show "onAudioTracksChange st = st"
    by (auto simp: onAudioTracksChange_def split: option.splits)
next
  assume s: "get_hls st = Some h \<and> deref (vlists st) (videoTrackList st) = Some vl"
  note c = onVideoTracksChange_cases [of st h vl]
  show "onVideoTracksChange st = st" if "find selected (tracks vl) = None"
    using c(1) s that by blast
  show "onVideoTracksChange st = st"
    if "find selected (tracks vl) = Some vt"
      and "\<exists>cur. at_index (levels h) (currentLevel h) = Some cur \<and> id_t vt = level_id cur"
    using c(2) s that by blast
  show "onVideoTracksChange st = st"
    if "find selected (tracks vl) = Some vt" and "\<forall>l\<in>set (levels h). level_id l \<noteq> id_t vt"
    using c(3) s that by blast
  show "let i = findIndex (\<lambda>l. level_id l = id_t vt) (levels h) in
          onVideoTracksChange st
            = st\<lparr>hlsInstance := Some (h\<lparr>calls := calls h @ [SetCurrentLevel i]\<rparr>)\<rparr> \<and>
          0 \<le> i \<and> nat i < length (levels h) \<and> level_id (levels h ! nat i) = id_t vt \<and>
          (\<forall>j < nat i. level_id (levels h ! j) \<noteq> id_t vt)"
    if "find selected (tracks vl) = Some vt"
      and "\<not> (\<exists>cur. at_index (levels h) (currentLevel h) = Some cur \<and> id_t vt = level_id cur) \<and>
           (\<exists>l\<in>set (levels h). level_id l = id_t vt)"
    using c(4) [of vt] s that findIndex_first [of "levels h" "\<lambda>l. level_id l = id_t vt"]
    unfolding Let_def call_def by blast
next
  assume s: "get_hls st = Some h \<and> deref (alists st) (audioTrackList st) = Some al"
  note c = onAudioTracksChange_cases [of st h al]
  show "onAudioTracksChange st = st" if "find enabled (tracks al) = None"
    using c(1) s that by blast
  show "onAudioTracksChange st = st"
    if "find enabled (tracks al) = Some aut"
      and "\<exists>cur. at_index (audioTracks h) (audioTrack h) = Some cur \<and> id_t aut = Some (mp_url cur)"
    using c(2) s that by blast
  show "onAudioTracksChange st = st"
    if "find enabled (tracks al) = Some aut" and "\<forall>l\<in>set (audioTracks h). Some (mp_url l) \<noteq> id_t aut"
    using c(3) s that by blast
  show "let i = findIndex (\<lambda>l. Some (mp_url l) = id_t aut) (audioTracks h) in
          onAudioTracksChange st
            = st\<lparr>hlsInstance := Some (h\<lparr>calls := calls h @ [SetAudioTrack i]\<rparr>)\<rparr> \<and>
          0 \<le> i \<and> nat i < length (audioTracks h) \<and> Some (mp_url (audioTracks h ! nat i)) = id_t aut \<and>
          (\<forall>j < nat i. Some (mp_url (audioTracks h ! j)) \<noteq> id_t aut)"
    if "find enabled (tracks al) = Some aut"
      and "\<not> (\<exists>cur. at_index (audioTracks h) (audioTrack h) = Some cur \<and> id_t aut = Some (mp_url cur)) \<and>
           (\<exists>l\<in>set (audioTracks h). Some (mp_url l) = id_t aut)"
    using c(4) [of aut] s that findIndex_first [of "audioTracks h" "\<lambda>l. Some (mp_url l) = id_t aut"]
    unfolding Let_def call_def by blast
qed

lemmas ex_defs =
  ex_user_choice_def ex_populated_def ex_session_def ex_engine_def ex_attached_def ex_video_def
  ex_track_480_def ex_track_720_def ex_track_en_def ex_track_fr_def
  ex_480_def ex_720_def ex_en_def ex_fr_def ex_url_def

theorem user_selection_commands_engine_witness:
  "onVideoTracksChange ex_populated = ex_populated \<and>
   onVideoTracksChange ex_user_choice
     = ex_user_choice\<lparr>hlsInstance := Some (ex_engine\<lparr>calls := calls ex_engine @ [SetCurrentLevel 1]\<rparr>)\<rparr> \<and>
   onAudioTracksChange ex_populated = ex_populated \<and>
   onAudioTracksChange ex_user_choice
     = ex_user_choice\<lparr>hlsInstance := Some (ex_engine\<lparr>calls := calls ex_engine @ [SetAudioTrack 1]\<rparr>)\<rparr> \<and>
   length (calls ex_engine) = 15 \<and>
   (\<exists>e. hlsInstance (onVideoTracksChange ex_user_choice) = Some e \<and>
        length (calls e) = 16 \<and> calls e ! 15 = SetCurrentLevel 1 \<and> take 15 (calls e) = calls ex_engine) \<and>
   (\<exists>e. hlsInstance (onAudioTracksChange ex_user_choice) = Some e \<and>
        length (calls e) = 16 \<and> calls e ! 15 = SetAudioTrack 1 \<and> take 15 (calls e) = calls ex_engine) \<and>
   onVideoTracksChange (ex_user_choice\<lparr>videoTrackList := None\<rparr>) = ex_user_choice\<lparr>videoTrackList := None\<rparr> \<and>
   onAudioTracksChange (ex_user_choice\<lparr>audioTrackList := None\<rparr>) = ex_user_choice\<lparr>audioTrackList := None\<rparr>"
proof -
  let ?vl = "\<lparr>tracks = [ex_track_480, ex_track_720], changeListeners = [0]\<rparr>"
  let ?al = "\<lparr>tracks = [ex_track_en, ex_track_fr], changeListeners = [1]\<rparr>"
  let ?vl' = "\<lparr>tracks = [ex_track_480\<lparr>selected := False\<rparr>, ex_track_720\<lparr>selected := True\<rparr>],
              changeListeners = [0]\<rparr>"
  let ?al' = "\<lparr>tracks = [ex_track_en\<lparr>enabled := False\<rparr>, ex_track_fr\<lparr>enabled := True\<rparr>],
              changeListeners = [1]\<rparr>"
  note p = user_selection_commands_engine [of ex_populated ex_engine ?vl ex_track_480 ?al ex_track_en]
  note u = user_selection_commands_engine
    [of ex_user_choice ex_engine ?vl' "ex_track_720\<lparr>selected := True\<rparr>" ?al' "ex_track_fr\<lparr>enabled := True\<rparr>"]
  note nv = user_selection_commands_engine
    [of "ex_user_choice\<lparr>videoTrackList := None\<rparr>" ex_engine ?vl' "ex_track_720\<lparr>selected := True\<rparr>" ?al'
        "ex_track_fr\<lparr>enabled := True\<rparr>"]
  note na = user_selection_commands_engine
    [of "ex_user_choice\<lparr>audioTrackList := None\<rparr>" ex_engine ?vl' "ex_track_720\<lparr>selected := True\<rparr>" ?al'
        "ex_track_fr\<lparr>enabled := True\<rparr>"]
  have p1: "get_hls ex_populated = Some ex_engine \<and> deref (vlists ex_populated) (videoTrackList ex_populated) = Some ?vl"
    and p2: "find selected (tracks ?vl) = Some ex_track_480"
    and p3: "\<exists>cur. at_index (levels ex_engine) (currentLevel ex_engine) = Some cur \<and> id_t ex_track_480 = level_id cur"
    and p4: "get_hls ex_populated = Some ex_engine \<and> deref (alists ex_populated) (audioTrackList ex_populated) = Some ?al"
    and p5: "find enabled (tracks ?al) = Some ex_track_en"
    and p6: "\<exists>cur. at_index (audioTracks ex_engine) (audioTrack ex_engine) = Some cur \<and> id_t ex_track_en = Some (mp_url cur)"
    by (simp_all add: ex_defs get_hls_def deref_def at_index_def level_id_def)
  have u1: "get_hls ex_user_choice = Some ex_engine \<and> deref (vlists ex_user_choice) (videoTrackList ex_user_choice) = Some ?vl'"
    and u2: "find selected (tracks ?vl') = Some (ex_track_720\<lparr>selected := True\<rparr>)"
    and u3: "\<not> (\<exists>cur. at_index (levels ex_engine) (currentLevel ex_engine) = Some cur \<and>
                 id_t (ex_track_720\<lparr>selected := True\<rparr>) = level_id cur) \<and>
             (\<exists>l\<in>set (levels ex_engine). level_id l = id_t (ex_track_720\<lparr>selected := True\<rparr>))"
    and u4: "get_hls ex_user_choice = Some ex_engine \<and> deref (alists ex_user_choice) (audioTrackList ex_user_choice) = Some ?al'"
    and u5: "find enabled (tracks ?al') = Some (ex_track_fr\<lparr>enabled := True\<rparr>)"
    and u6: "\<not> (\<exists>cur. at_index (audioTracks ex_engine) (audioTrack ex_engine) = Some cur \<and>
                 id_t (ex_track_fr\<lparr>enabled := True\<rparr>) = Some (mp_url cur)) \<and>
             (\<exists>l\<in>set (audioTracks ex_engine). Some (mp_url l) = id_t (ex_track_fr\<lparr>enabled := True\<rparr>))"
    by (simp_all add: ex_defs get_hls_def deref_def at_index_def level_id_def)
  have n1: "get_hls (ex_user_choice\<lparr>videoTrackList := None\<rparr>) = None \<or>
      deref (vlists (ex_user_choice\<lparr>videoTrackList := None\<rparr>))
        (videoTrackList (ex_user_choice\<lparr>videoTrackList := None\<rparr>)) = None"
    and n2: "get_hls (ex_user_choice\<lparr>audioTrackList := None\<rparr>) = None \<or>
      deref (alists (ex_user_choice\<lparr>audioTrackList := None\<rparr>))
        (audioTrackList (ex_user_choice\<lparr>audioTrackList := None\<rparr>)) = None"
    by (simp_all add: deref_def)
  have i1: "findIndex (\<lambda>l. level_id l = id_t (ex_track_720\<lparr>selected := True\<rparr>)) (levels ex_engine) = 1"
    and i2: "findIndex (\<lambda>l. Some (mp_url l) = id_t (ex_track_fr\<lparr>enabled := True\<rparr>)) (audioTracks ex_engine) = 1"
    by (simp_all add: ex_defs level_id_def)
  from p p1 p2 p3 have a: "onVideoTracksChange ex_populated = ex_populated" by blast
  from p p4 p5 p6 have b: "onAudioTracksChange ex_populated = ex_populated" by blast
  from u u1 u2 u3 have "let i = findIndex (\<lambda>l. level_id l = id_t (ex_track_720\<lparr>selected := True\<rparr>)) (levels ex_engine) in
      onVideoTracksChange ex_user_choice
        = ex_user_choice\<lparr>hlsInstance := Some (ex_engine\<lparr>calls := calls ex_engine @ [SetCurrentLevel i]\<rparr>)\<rparr> \<and>
      0 \<le> i \<and> nat i < length (levels ex_engine) \<and>
      level_id (levels ex_engine ! nat i) = id_t (ex_track_720\<lparr>selected := True\<rparr>) \<and>
      (\<forall>j < nat i. level_id (levels ex_engine ! j) \<noteq> id_t (ex_track_720\<lparr>selected := True\<rparr>))"
    by blast
  then have c: "onVideoTracksChange ex_user_choice
      = ex_user_choice\<lparr>hlsInstance := Some (ex_engine\<lparr>calls := calls ex_engine @ [SetCurrentLevel 1]\<rparr>)\<rparr>"
    unfolding Let_def i1 by blast
  from u u4 u5 u6 have "let i = findIndex (\<lambda>l. Some (mp_url l) = id_t (ex_track_fr\<lparr>enabled := True\<rparr>)) (audioTracks ex_engine) in
      onAudioTracksChange ex_user_choice
        = ex_user_choice\<lparr>hlsInstance := Some (ex_engine\<lparr>calls := calls ex_engine @ [SetAudioTrack i]\<rparr>)\<rparr> \<and>
      0 \<le> i \<and> nat i < length (audioTracks ex_engine) \<and>
      Some (mp_url (audioTracks ex_engine ! nat i)) = id_t (ex_track_fr\<lparr>enabled := True\<rparr>) \<and>
      (\<forall>j < nat i. Some (mp_url (audioTracks ex_engine ! j)) \<noteq> id_t (ex_track_fr\<lparr>enabled := True\<rparr>))"
    by blast
  then have d: "onAudioTracksChange ex_user_choice
      = ex_user_choice\<lparr>hlsInstance := Some (ex_engine\<lparr>calls := calls ex_engine @ [SetAudioTrack 1]\<rparr>)\<rparr>"
    unfolding Let_def i2 by blast
  from nv n1 have e: "onVideoTracksChange (ex_user_choice\<lparr>videoTrackList := None\<rparr>)
      = ex_user_choice\<lparr>videoTrackList := None\<rparr>" by blast
  from na n2 have f: "onAudioTracksChange (ex_user_choice\<lparr>audioTrackList := None\<rparr>)
      = ex_user_choice\<lparr>audioTrackList := None\<rparr>" by blast
  have len: "length (calls ex_engine) = 15"
    by (simp add: ex_engine_def ex_attached_def)
  have g: "\<exists>e. hlsInstance (onVideoTracksChange ex_user_choice) = Some e \<and>
        length (calls e) = 16 \<and> calls e ! 15 = SetCurrentLevel 1 \<and> take 15 (calls e) = calls ex_engine"
    unfolding c using len by (simp add: nth_append)
  have h: "\<exists>e. hlsInstance (onAudioTracksChange ex_user_choice) = Some e \<and>
        length (calls e) = 16 \<and> calls e ! 15 = SetAudioTrack 1 \<and> take 15 (calls e) = calls ex_engine"
    unfolding d using len by (simp add: nth_append)
  from a b c d e f g h len show ?thesis by blast
qed

text \<open>
  With the engine's media detached from the element there is a selected track (720p), its
  identifier is not the one of the engine's active level (480p), and the engine has a
  level with that identifier, at index 1: yet the handler writes nothing, the state is the
  same afterwards. The same for the audio list.
\<close>

theorem unattached_engine_counterexample:
  "hlsInstance ex_unattached = Some (ex_engine\<lparr>media := NoMedia\<rparr>) \<and>
   get_hls ex_unattached = None \<and>
   deref (vlists ex_unattached) (videoTrackList ex_unattached)
     = Some \<lparr>tracks = [ex_track_480\<lparr>selected := False\<rparr>, ex_track_720\<lparr>selected := True\<rparr>],
             changeListeners = [0]\<rparr> \<and>
   find selected [ex_track_480\<lparr>selected := False\<rparr>, ex_track_720\<lparr>selected := True\<rparr>]
     = Some (ex_track_720\<lparr>selected := True\<rparr>) \<and>
   at_index (levels (ex_engine\<lparr>media := NoMedia\<rparr>)) (currentLevel (ex_engine\<lparr>media := NoMedia\<rparr>))
     = Some ex_480 \<and>
   level_id ex_480 \<noteq> id_t (ex_track_720\<lparr>selected := True\<rparr>) \<and>
   findIndex (\<lambda>l. level_id l = id_t (ex_track_720\<lparr>selected := True\<rparr>))
     (levels (ex_engine\<lparr>media := NoMedia\<rparr>)) = 1 \<and>
   onVideoTracksChange ex_unattached = ex_unattached \<and>
   deref (alists ex_unattached) (audioTrackList ex_unattached)
     = Some \<lparr>tracks = [ex_track_en\<lparr>enabled := False\<rparr>, ex_track_fr\<lparr>enabled := True\<rparr>],
             changeListeners = [1]\<rparr> \<and>
   find enabled [ex_track_en\<lparr>enabled := False\<rparr>, ex_track_fr\<lparr>enabled := True\<rparr>]
     = Some (ex_track_fr\<lparr>enabled := True\<rparr>) \<and>
   at_index (audioTracks (ex_engine\<lparr>media := NoMedia\<rparr>)) (audioTrack (ex_engine\<lparr>media := NoMedia\<rparr>))
     = Some ex_en \<and>
   Some (mp_url ex_en) \<noteq> id_t (ex_track_fr\<lparr>enabled := True\<rparr>) \<and>
   findIndex (\<lambda>l. Some (mp_url l) = id_t (ex_track_fr\<lparr>enabled := True\<rparr>))
     (audioTracks (ex_engine\<lparr>media := NoMedia\<rparr>)) = 1 \<and>
   onAudioTracksChange ex_unattached = ex_unattached"
  by (simp add: ex_unattached_def ex_defs get_hls_def deref_def at_index_def level_id_def
      onVideoTracksChange_def onAudioTracksChange_def)
subsection \<open>Teardown\<close>

lemma removeTracks_filter:
  "removeTracks rs l = l\<lparr>tracks := filter (\<lambda>t. ref t \<notin> set rs) (tracks l)\<rparr>"
proof (induction rs arbitrary: l)
  case Nil
  show ?case by (simp add: removeTracks_def)
next
  case (Cons r rs)
  have "removeTracks (r # rs) l = removeTracks rs (removeTrack r l)"
    by (simp add: removeTracks_def)
  also have "\<dots> = l\<lparr>tracks := filter (\<lambda>t. ref t \<notin> set (r # rs)) (tracks l)\<rparr>"
    by (simp add: Cons.IH removeTrack_def conj_commute)
  finally show ?case .
qed

lemma unsubscribe_tracks: "tracks (unsubscribe b l) = tracks l"
  by (simp add: unsubscribe_def removeEventListener_def split: option.splits)

lemma unsubscribe_listeners:
  "changeListeners (unsubscribe b l) = filter (\<lambda>g. Some g \<noteq> b) (changeListeners l)"
  by (cases b) (simp_all add: unsubscribe_def removeEventListener_def)

lemma detach_list_eq:
  "removeTracks rs (unsubscribe b l)
     = \<lparr>tracks = filter (\<lambda>t. ref t \<notin> set rs) (tracks l),
        changeListeners = filter (\<lambda>g. Some g \<noteq> b) (changeListeners l)\<rparr>"
  by (simp add: removeTracks_filter unsubscribe_tracks unsubscribe_listeners)

lemma modify_modify: "modify a f (modify a g xs) = modify a (\<lambda>x. f (g x)) xs"
  by (simp add: modify_def)

lemma length_modify: "length (modify a f xs) = length xs"
  by (simp add: modify_def)

lemma nth_modify: "modify a f xs ! b = (if b = a \<and> a < length xs then f (xs ! a) else xs ! b)"
  by (simp add: modify_def)

lemma detachHls_eq:
  "detachHls st =
     st\<lparr>video := (video st)\<lparr>children := filter (\<lambda>e. \<not> marker e) (children (video st))\<rparr>,
        vlists := (case videoTrackList st of None \<Rightarrow> vlists st
                   | Some a \<Rightarrow> modify a (\<lambda>l. removeTracks (createdVideoTracks st)
                                (unsubscribe (onVideoTracksChangeBound st) l)) (vlists st)),
        createdVideoTracks := (case videoTrackList st of None \<Rightarrow> createdVideoTracks st | Some a \<Rightarrow> []),
        alists := (case audioTrackList st of None \<Rightarrow> alists st
                   | Some a \<Rightarrow> modify a (\<lambda>l. removeTracks (createdAudioTracks st)
                                (unsubscribe (onAudioTracksChangeBound st) l)) (alists st)),
        createdAudioTracks := (case audioTrackList st of None \<Rightarrow> createdAudioTracks st | Some a \<Rightarrow> []),
        hlsInstance := None, hlsSrc := None, seekableTimeRanges := False\<rparr>"
  by (cases "videoTrackList st"; cases "audioTrackList st") (simp_all add: detachHls_def Let_def)

lemma detachHls_idem: "detachHls (detachHls st) = detachHls st"
proof -
  have v: "modify a (\<lambda>l. removeTracks [] (unsubscribe b l))
             (modify a (\<lambda>l. removeTracks rs (unsubscribe b l)) xs)
           = modify a (\<lambda>l. removeTracks rs (unsubscribe b l)) xs"
    for a b rs and xs :: "'x track_scheme track_list list"
    by (simp add: modify_modify detach_list_eq)
  show ?thesis
    by (cases "videoTrackList st"; cases "audioTrackList st")
      (simp_all add: detachHls_eq [of "detachHls st"] v, simp_all add: detachHls_eq [of st] v)
qed

lemma detachHls_video_list:
  assumes "videoTrackList st = Some a" and "a < length (vlists st)"
  shows "tracks (vlists (detachHls st) ! a)
           = filter (\<lambda>t. ref t \<notin> set (createdVideoTracks st)) (tracks (vlists st ! a))"
    and "createdVideoTracks (detachHls st) = []"
    and "length (vlists (detachHls st)) = length (vlists st)"
    and "b \<noteq> a \<Longrightarrow> vlists (detachHls st) ! b = vlists st ! b"
  using assms
  by (simp_all add: detachHls_eq length_modify nth_modify detach_list_eq)

lemma detachHls_audio_list:
  assumes "audioTrackList st = Some a" and "a < length (alists st)"
  shows "tracks (alists (detachHls st) ! a)
           = filter (\<lambda>t. ref t \<notin> set (createdAudioTracks st)) (tracks (alists st ! a))"
    and "createdAudioTracks (detachHls st) = []"
    and "length (alists (detachHls st)) = length (alists st)"
    and "b \<noteq> a \<Longrightarrow> alists (detachHls st) ! b = alists st ! b"
  using assms
  by (simp_all add: detachHls_eq length_modify nth_modify detach_list_eq)

lemma detachHls_session:
  "hlsInstance (detachHls st) = None" "hlsSrc (detachHls st) = None"
  "seekableTimeRanges (detachHls st) = False"
  "children (video (detachHls st)) = filter (\<lambda>e. \<not> marker e) (children (video st))"
  "src_attr (video (detachHls st)) = src_attr (video st)"
  by (simp_all add: detachHls_eq)

lemma detachHls_src_attr:
  "detachHls (st\<lparr>video := (video st)\<lparr>src_attr := x\<rparr>\<rparr>)
     = (detachHls st)\<lparr>video := (video (detachHls st))\<lparr>src_attr := x\<rparr>\<rparr>"
  by (cases "videoTrackList st"; cases "audioTrackList st")
    (simp_all add: detachHls_eq [of st] detachHls_eq [of "st\<lparr>video := (video st)\<lparr>src_attr := x\<rparr>\<rparr>"])

text \<open>
  C6. Detaching, for a bound video list (at address \<open>a\<close>): the list keeps, in their order
  and as they are (identifier, selection flag and all), exactly the tracks whose identity
  is not in \<open>createdVideoTracks\<close>; the set is empty afterwards; no other container
  changes. The same for the audio list and \<open>createdAudioTracks\<close>.
\<close>

theorem detach_removes_own_entries_only:
  "(videoTrackList st = Some a \<and> a < length (vlists st) \<longrightarrow>
      tracks (vlists (detach st) ! a)
        = filter (\<lambda>t. ref t \<notin> set (createdVideoTracks st)) (tracks (vlists st ! a)) \<and>
      createdVideoTracks (detach st) = [] \<and>
      length (vlists (detach st)) = length (vlists st) \<and>
      (\<forall>b. b \<noteq> a \<longrightarrow> vlists (detach st) ! b = vlists st ! b)) \<and>
   (audioTrackList st = Some a' \<and> a' < length (alists st) \<longrightarrow>
      tracks (alists (detach st) ! a')
        = filter (\<lambda>t. ref t \<notin> set (createdAudioTracks st)) (tracks (alists st ! a')) \<and>
      createdAudioTracks (detach st) = [] \<and>
      length (alists (detach st)) = length (alists st) \<and>
      (\<forall>b. b \<noteq> a' \<longrightarrow> alists (detach st) ! b = alists st ! b))"
  by (simp add: detach_def detachHls_video_list detachHls_audio_list)

text \<open>
  C5, as amended. Teardown returns a state (it has no failing branch) and is idempotent:
  a second \<open>detach\<close> changes nothing. After \<open>detach\<close> there is no engine instance, no stored
  HLS source and no \<^verbatim>\<open><track>\<close> element with the marker. When no session exists (the wrapper
  holds no engine instance), \<open>detach\<close> leaves the source attribute of the element as it was.
  \<open>setSrc\<close> of the empty string returns a state, a second one returns the same state, and
  in it the element has no source attribute, no engine instance, no stored HLS source and
  no \<^verbatim>\<open><track>\<close> element with the marker.
\<close>

theorem teardown_idempotent:
  "detach (detach st) = detach st \<and>
   hlsInstance (detach st) = None \<and> hlsSrc (detach st) = None \<and>
   list_all (\<lambda>e. \<not> marker e) (children (video (detach st))) \<and>
   (hlsInstance st = None \<longrightarrow> src_attr (video (detach st)) = src_attr (video st)) \<and>
   (\<exists>st'. setSrc isHlsSource getUrlProtocol S [] st = Inr st' \<and>
          setSrc isHlsSource getUrlProtocol S [] st' = Inr st' \<and>
          src_attr (video st') = None \<and> hlsInstance st' = None \<and> hlsSrc st' = None \<and>
          list_all (\<lambda>e. \<not> marker e) (children (video st')))"
proof -
  let ?st' = "(detachHls st)\<lparr>video := (video (detachHls st))\<lparr>src_attr := None\<rparr>\<rparr>"
  have 1: "setSrc isHlsSource getUrlProtocol S [] st = Inr ?st'"
    by (simp add: setSrc_def Let_def)
  have d: "detachHls ?st' = ?st'"
    by (simp add: detachHls_src_attr detachHls_idem)
  have 2: "setSrc isHlsSource getUrlProtocol S [] ?st' = Inr ?st'"
    by (simp add: setSrc_def Let_def d)
  have m: "list_all (\<lambda>e. \<not> marker e) (children (video (detachHls st)))"
    by (simp add: detachHls_session list_all_iff)
  show ?thesis
    using 1 2 m by (simp add: detach_def detachHls_idem detachHls_session)
qed

lemma ex_shared_session_reached:
  "setSrc (\<lambda>s. True) (\<lambda>s. ''https:'') ex_statics ex_url ex_shared = Inr ex_shared_session"
  by (simp add: ex_shared_session_def ex_shared_def ex_attached_def setSrc_def initHls_def
      ex_url_def ex_statics_def Hls_set_def ex_no_ctor_def Hls_get_def ex_new_def ex_video_def
      detachHls_def initVideoTrackList_def initAudioTrackList_def Let_def instance_at_def
      modify_def addEventListener_def on_def call_def attachMedia_def ex_ctor_def)

lemma ex_mixed_reached:
  "updateTrackLists ex_engine
     (initNativeTextTrack [ex_subtitles] (ex_shared_session\<lparr>hlsInstance := Some ex_engine\<rparr>))
   = ex_mixed"
  by (simp add: ex_mixed_def ex_shared_session_def ex_shared_def ex_new_def ex_video_def
      ex_engine_def updateTrackLists_def initNativeTextTrack_def placeholder_def ex_subtitles_def
      ex_placeholder_def falsy_def ex_url_def removeTracks_def removeTrack_def modify_def Let_def
      newVideoTrack_def newAudioTrack_def addTrack_def set_add_def level_id_def
      ex_480_def ex_720_def ex_en_def ex_fr_def
      ex_track_480_def ex_track_720_def ex_track_en_def ex_track_fr_def
      ex_dash_video_def ex_dash_audio_def)

lemma ex_mp4_reached:
  "setSrc (\<lambda>s. False) (\<lambda>s. ''https:'') ex_statics ''movie.mp4'' ex_new = Inr ex_mp4"
  by (simp add: ex_mp4_def setSrc_def ex_new_def Let_def)

theorem detach_removes_own_entries_only_witness:
  "tracks (vlists (detach ex_mixed) ! 0) = [ex_dash_video] \<and>
   createdVideoTracks (detach ex_mixed) = [] \<and>
   tracks (alists (detach ex_mixed) ! 0) = [ex_dash_audio] \<and>
   createdAudioTracks (detach ex_mixed) = []"
proof -
  have b: "videoTrackList ex_mixed = Some 0 \<and> 0 < length (vlists ex_mixed)"
    "audioTrackList ex_mixed = Some 0 \<and> 0 < length (alists ex_mixed)"
    by (simp_all add: ex_mixed_def ex_shared_session_def ex_shared_def)
  from detach_removes_own_entries_only [of ex_mixed 0 0] b
  have "tracks (vlists (detach ex_mixed) ! 0)
          = filter (\<lambda>t. ref t \<notin> set (createdVideoTracks ex_mixed)) (tracks (vlists ex_mixed ! 0))"
    and "createdVideoTracks (detach ex_mixed) = []"
    and "tracks (alists (detach ex_mixed) ! 0)
          = filter (\<lambda>t. ref t \<notin> set (createdAudioTracks ex_mixed)) (tracks (alists ex_mixed ! 0))"
    and "createdAudioTracks (detach ex_mixed) = []"
    by blast+
  then show ?thesis
    by (simp add: ex_mixed_def ex_shared_session_def ex_shared_def
        ex_dash_video_def ex_dash_audio_def
        ex_track_480_def ex_track_720_def ex_track_en_def ex_track_fr_def)
qed

theorem teardown_idempotent_witness:
  "children (video ex_mixed) = [ex_placeholder] \<and> marker ex_placeholder \<and>
   hlsInstance ex_mixed = Some ex_engine \<and>
   children (video (detach ex_mixed)) = [] \<and> hlsInstance (detach ex_mixed) = None \<and>
   hlsSrc (detach ex_mixed) = None \<and> detach (detach ex_mixed) = detach ex_mixed \<and>
   (\<exists>st'. setSrc (\<lambda>s. True) (\<lambda>s. ''https:'') ex_statics [] ex_mixed = Inr st' \<and>
          setSrc (\<lambda>s. True) (\<lambda>s. ''https:'') ex_statics [] st' = Inr st' \<and>
          src_attr (video st') = None) \<and>
   hlsInstance ex_mp4 = None \<and> src_attr (video ex_mp4) = Some ''movie.mp4'' \<and>
   src_attr (video (detach ex_mp4)) = src_attr (video ex_mp4) \<and>
   detach (detach ex_mp4) = detach ex_mp4 \<and>
   (\<exists>st'. setSrc (\<lambda>s. True) (\<lambda>s. ''https:'') ex_statics [] ex_mp4 = Inr st' \<and>
          setSrc (\<lambda>s. True) (\<lambda>s. ''https:'') ex_statics [] st' = Inr st' \<and>
          src_attr (video st') = None)"
proof -
  note t = teardown_idempotent [of ex_mixed "\<lambda>s. True" "\<lambda>s. ''https:''" ex_statics]
  note m = teardown_idempotent [of ex_mp4 "\<lambda>s. True" "\<lambda>s. ''https:''" ex_statics]
  have n: "hlsInstance ex_mp4 = None \<and> src_attr (video ex_mp4) = Some ''movie.mp4''"
    by (simp add: ex_mp4_def ex_new_def)
  have c: "children (video ex_mixed) = [ex_placeholder] \<and> marker ex_placeholder \<and>
      hlsInstance ex_mixed = Some ex_engine"
    by (simp add: ex_mixed_def ex_shared_session_def ex_shared_def ex_placeholder_def)
  have e: "children (video (detach ex_mixed)) = []"
    by (simp add: detach_def detachHls_session ex_mixed_def ex_shared_session_def ex_shared_def
        ex_placeholder_def)
  from m n have k1: "src_attr (video (detach ex_mp4)) = src_attr (video ex_mp4)"
    and k2: "detach (detach ex_mp4) = detach ex_mp4"
    by simp_all
  from m obtain st' where "setSrc (\<lambda>s. True) (\<lambda>s. ''https:'') ex_statics [] ex_mp4 = Inr st'"
      "setSrc (\<lambda>s. True) (\<lambda>s. ''https:'') ex_statics [] st' = Inr st'" "src_attr (video st') = None"
    by blast
  then have k3: "\<exists>st'. setSrc (\<lambda>s. True) (\<lambda>s. ''https:'') ex_statics [] ex_mp4 = Inr st' \<and>
      setSrc (\<lambda>s. True) (\<lambda>s. ''https:'') ex_statics [] st' = Inr st' \<and> src_attr (video st') = None"
    by blast
  from t c e have old: "children (video ex_mixed) = [ex_placeholder] \<and> marker ex_placeholder \<and>
      hlsInstance ex_mixed = Some ex_engine \<and>
      children (video (detach ex_mixed)) = [] \<and> hlsInstance (detach ex_mixed) = None \<and>
      hlsSrc (detach ex_mixed) = None \<and> detach (detach ex_mixed) = detach ex_mixed \<and>
      (\<exists>st'. setSrc (\<lambda>s. True) (\<lambda>s. ''https:'') ex_statics [] ex_mixed = Inr st' \<and>
             setSrc (\<lambda>s. True) (\<lambda>s. ''https:'') ex_statics [] st' = Inr st' \<and>
             src_attr (video st') = None)"
    by blast
  from old n k1 k2 k3 show ?thesis by simp
qed

text \<open>
  With no session and a plain source on the element, \<open>detach\<close> returns and the element has
  its source attribute afterwards.
\<close>

theorem detach_keeps_source_counterexample:
  "hlsInstance ex_mp4 = None \<and> hlsSrc ex_mp4 = None \<and>
   src_attr (video (detach ex_mp4)) = Some ''movie.mp4''"
  by (simp add: detach_def detachHls_session ex_mp4_def ex_new_def ex_video_def)

subsection \<open>Subtitles and text tracks\<close>

lemma length_textTracks: "length (textTracks v) = length (children v) + length (addedTextTracks v)"
  by (simp add: textTracks_def)

lemma map_el_track_zip:
  "length es \<le> length ts \<Longrightarrow>
     map (el_track \<circ> (\<lambda>(e, t). e\<lparr>el_track := t\<rparr>)) (zip es ts) = take (length es) ts"
proof (induction es arbitrary: ts)
  case Nil
  show ?case by simp
next
  case (Cons e es)
  then show ?case by (cases ts) simp_all
qed

lemma textTracks_set_textTracks:
  "length ts = length (textTracks v) \<Longrightarrow> textTracks (set_textTracks ts v) = ts"
  by (simp add: textTracks_def set_textTracks_def map_el_track_zip)

lemma zip_own_tracks:
  "map (\<lambda>(e, t). e\<lparr>el_track := t\<rparr>) (zip es (map el_track es @ ts)) = es"
  by (induction es) simp_all

lemma set_textTracks_same: "set_textTracks (textTracks v) v = v"
  by (simp add: textTracks_def set_textTracks_def zip_own_tracks)

lemma switchMode_fields:
  "kind (switchMode r t) = kind t" "tt_label (switchMode r t) = tt_label t"
  "tt_language (switchMode r t) = tt_language t" "cues (switchMode r t) = cues t"
  by (simp_all add: switchMode_def Let_def)

lemma switchMode_corresponding:
  "isCorrespondingTrack (switchMode r t) r' = isCorrespondingTrack t r'"
  by (simp add: isCorrespondingTrack_def switchMode_fields)

lemma switchMode_mode:
  "mode (switchMode r t) =
     (if isCorrespondingTrack t r then (if mode t = Disabled then Showing else mode t) else Disabled)"
  by (simp add: switchMode_def Let_def)

lemma switchMode_active: "mode (switchMode r t) \<noteq> Disabled \<longleftrightarrow> isCorrespondingTrack t r"
  by (simp add: switchMode_mode)

lemma updateTextTrack_tracks:
  "at_index (subtitleTracks h) (subtitleTrack h) = Some r \<Longrightarrow>
     textTracks (video (updateTextTrack h st)) = map (switchMode r) (textTracks (video st))"
  by (simp add: updateTextTrack_def textTracks_set_textTracks)

text \<open>
  C4, as amended. A subtitle switch with an active rendition \<open>r\<close> changes nothing of a text
  track but its mode: a track that does not correspond to \<open>r\<close> is disabled afterwards; a
  track that corresponds is showing if it was disabled and keeps its mode (showing or
  hidden) otherwise. So afterwards the tracks that are not disabled are exactly the
  corresponding ones, as many as there were corresponding tracks (at most one when at most
  one corresponds). With no active rendition nothing changes.
\<close>

theorem subtitle_switch_modes:
  "(at_index (subtitleTracks h) (subtitleTrack h) = None \<longrightarrow> updateTextTrack h st = st) \<and>
   (at_index (subtitleTracks h) (subtitleTrack h) = Some r \<longrightarrow>
      length (textTracks (video (updateTextTrack h st))) = length (textTracks (video st)) \<and>
      (\<forall>i < length (textTracks (video st)).
         (let t = textTracks (video st) ! i; t' = textTracks (video (updateTextTrack h st)) ! i in
          kind t' = kind t \<and> tt_label t' = tt_label t \<and> tt_language t' = tt_language t \<and>
          cues t' = cues t \<and>
          (isCorrespondingTrack t r \<longrightarrow> mode t' = (if mode t = Disabled then Showing else mode t)) \<and>
          (\<not> isCorrespondingTrack t r \<longrightarrow> mode t' = Disabled))) \<and>
      (\<forall>t' \<in> set (textTracks (video (updateTextTrack h st))).
         mode t' \<noteq> Disabled \<longleftrightarrow> isCorrespondingTrack t' r) \<and>
      length (filter (\<lambda>t'. mode t' \<noteq> Disabled) (textTracks (video (updateTextTrack h st))))
        = length (filter (\<lambda>t. isCorrespondingTrack t r) (textTracks (video st))))"
proof (intro conjI impI)
  assume "at_index (subtitleTracks h) (subtitleTrack h) = None"
  then show "updateTextTrack h st = st" by (simp add: updateTextTrack_def)
next
  assume a: "at_index (subtitleTracks h) (subtitleTrack h) = Some r"
  note u = updateTextTrack_tracks [OF a, of st]
  show "length (textTracks (video (updateTextTrack h st))) = length (textTracks (video st))"
    by (simp add: u)
  show "\<forall>i < length (textTracks (video st)).
         (let t = textTracks (video st) ! i; t' = textTracks (video (updateTextTrack h st)) ! i in
          kind t' = kind t \<and> tt_label t' = tt_label t \<and> tt_language t' = tt_language t \<and>
          cues t' = cues t \<and>
          (isCorrespondingTrack t r \<longrightarrow> mode t' = (if mode t = Disabled then Showing else mode t)) \<and>
          (\<not> isCorrespondingTrack t r \<longrightarrow> mode t' = Disabled))"
    by (simp add: u Let_def switchMode_fields switchMode_mode)
  show "\<forall>t' \<in> set (textTracks (video (updateTextTrack h st))).
         mode t' \<noteq> Disabled \<longleftrightarrow> isCorrespondingTrack t' r"
    by (simp add: u switchMode_active switchMode_corresponding)
  show "length (filter (\<lambda>t'. mode t' \<noteq> Disabled) (textTracks (video (updateTextTrack h st))))
        = length (filter (\<lambda>t. isCorrespondingTrack t r) (textTracks (video st)))"
    by (simp add: u filter_map comp_def switchMode_active)
qed


lemma addCueToTrack_eq:
  "addCueToTrack t c =
     (if (startTime c, endTime c, cue_text c) \<in> (\<lambda>d. (startTime d, endTime d, cue_text d)) ` set (cues t)
      then t else t\<lparr>cues := cues t @ [c]\<rparr>)"
  by (auto simp: addCueToTrack_def list_ex_iff duplicate_def image_iff)

lemma fold_addCueToTrack:
  "\<exists>added. fold (\<lambda>cue t. addCueToTrack t cue) cs t = t\<lparr>cues := cues t @ added\<rparr> \<and>
     subseq added cs \<and>
     (\<lambda>d. (startTime d, endTime d, cue_text d)) ` set added
       = (\<lambda>d. (startTime d, endTime d, cue_text d)) ` set cs
         - (\<lambda>d. (startTime d, endTime d, cue_text d)) ` set (cues t) \<and>
     distinct (map (\<lambda>d. (startTime d, endTime d, cue_text d)) added)"
proof (induction cs arbitrary: t)
  case Nil
  show ?case by simp
next
  case (Cons c cs)
  let ?K = "\<lambda>d. (startTime d, endTime d, cue_text d)"
  show ?case
  proof (cases "?K c \<in> ?K ` set (cues t)")
    case True
    then have s: "addCueToTrack t c = t" by (simp add: addCueToTrack_eq)
    from Cons.IH [of t] obtain added where
      a: "fold (\<lambda>cue t. addCueToTrack t cue) cs t = t\<lparr>cues := cues t @ added\<rparr>"
      and b: "subseq added cs"
      and c: "?K ` set added = ?K ` set cs - ?K ` set (cues t)"
      and d: "distinct (map ?K added)" by blast
    have "?K ` set added = ?K ` set (c # cs) - ?K ` set (cues t)"
      using c True by auto
    with a b d s show ?thesis
      by (intro exI [of _ added]) (simp add: list_emb_Cons)
  next
    case False
    then have s: "addCueToTrack t c = t\<lparr>cues := cues t @ [c]\<rparr>" by (simp add: addCueToTrack_eq)
    from Cons.IH [of "t\<lparr>cues := cues t @ [c]\<rparr>"] obtain added where
      a: "fold (\<lambda>cue t. addCueToTrack t cue) cs (t\<lparr>cues := cues t @ [c]\<rparr>)
            = t\<lparr>cues := cues t @ [c] @ added\<rparr>"
      and b: "subseq added cs"
      and c: "?K ` set added = ?K ` set cs - ?K ` set (cues t @ [c])"
      and d: "distinct (map ?K added)" by auto
    have k: "?K c \<notin> ?K ` set added" using c by auto
    have "?K ` set (c # added) = ?K ` set (c # cs) - ?K ` set (cues t)"
      using c False by auto
    with a b d k s show ?thesis
      by (intro exI [of _ "c # added"]) simp
  qed
qed

lemma length_addToFirst: "length (addToFirst cur cs ts) = length ts"
  by (induction ts) simp_all

lemma addToFirst_none: "\<forall>t\<in>set ts. \<not> isCorrespondingTrack t cur \<Longrightarrow> addToFirst cur cs ts = ts"
  by (induction ts) simp_all

lemma addToFirst_first:
  "i < length ts \<Longrightarrow> isCorrespondingTrack (ts ! i) cur \<Longrightarrow>
   \<forall>j<i. \<not> isCorrespondingTrack (ts ! j) cur \<Longrightarrow>
     addToFirst cur cs ts = ts[i := fold (\<lambda>cue t. addCueToTrack t cue) cs (ts ! i)]"
proof (induction ts arbitrary: i)
  case Nil
  then show ?case by simp
next
  case (Cons t ts)
  show ?case
  proof (cases i)
    case 0
    with Cons.prems show ?thesis by simp
  next
    case (Suc k)
    with Cons.prems have "\<not> isCorrespondingTrack t cur" by auto
    moreover from Suc Cons.prems have "k < length ts" "isCorrespondingTrack (ts ! k) cur"
      "\<forall>j<k. \<not> isCorrespondingTrack (ts ! j) cur" by auto
    ultimately show ?thesis using Cons.IH [of k] Suc by simp
  qed
qed

text \<open>
  C7. With no active subtitle rendition (index \<open>-1\<close>, or no rendition at the index) parsed
  cues change nothing. Otherwise, when no text track corresponds to the active rendition
  nothing changes either, and when \<open>i\<close> is the first corresponding track only that track
  changes: its cues are the old ones followed by \<open>added\<close>, a subsequence of the parsed cues
  (their order is kept) that holds, once each, exactly the parsed cues with no duplicate
  (same start time, end time and text) among the old ones.
\<close>

theorem cues_go_to_first_corresponding_track:
  "(subtitleTrack h = - 1 \<or> at_index (subtitleTracks h) (subtitleTrack h) = None
      \<longrightarrow> addCues cs h st = st) \<and>
   (subtitleTrack h \<noteq> - 1 \<and> at_index (subtitleTracks h) (subtitleTrack h) = Some cur \<longrightarrow>
      ((\<forall>t\<in>set (textTracks (video st)). \<not> isCorrespondingTrack t cur) \<longrightarrow> addCues cs h st = st) \<and>
      (i < length (textTracks (video st)) \<and> isCorrespondingTrack (textTracks (video st) ! i) cur \<and>
       (\<forall>j<i. \<not> isCorrespondingTrack (textTracks (video st) ! j) cur) \<longrightarrow>
         (\<exists>added.
            textTracks (video (addCues cs h st))
              = (textTracks (video st))
                  [i := (textTracks (video st) ! i)\<lparr>cues := cues (textTracks (video st) ! i) @ added\<rparr>] \<and>
            subseq added cs \<and>
            (\<lambda>d. (startTime d, endTime d, cue_text d)) ` set added
              = (\<lambda>d. (startTime d, endTime d, cue_text d)) ` set cs
                - (\<lambda>d. (startTime d, endTime d, cue_text d)) ` set (cues (textTracks (video st) ! i)) \<and>
            distinct (map (\<lambda>d. (startTime d, endTime d, cue_text d)) added))))"
proof (intro conjI impI)
  assume "subtitleTrack h = - 1 \<or> at_index (subtitleTracks h) (subtitleTrack h) = None"
  then show "addCues cs h st = st" by (auto simp: addCues_def)
next
  assume a: "subtitleTrack h \<noteq> - 1 \<and> at_index (subtitleTracks h) (subtitleTrack h) = Some cur"
  show "addCues cs h st = st" if "\<forall>t\<in>set (textTracks (video st)). \<not> isCorrespondingTrack t cur"
    using a that by (simp add: addCues_def addToFirst_none set_textTracks_same)
  show "\<exists>added.
            textTracks (video (addCues cs h st))
              = (textTracks (video st))
                  [i := (textTracks (video st) ! i)\<lparr>cues := cues (textTracks (video st) ! i) @ added\<rparr>] \<and>
            subseq added cs \<and>
            (\<lambda>d. (startTime d, endTime d, cue_text d)) ` set added
              = (\<lambda>d. (startTime d, endTime d, cue_text d)) ` set cs
                - (\<lambda>d. (startTime d, endTime d, cue_text d)) ` set (cues (textTracks (video st) ! i)) \<and>
            distinct (map (\<lambda>d. (startTime d, endTime d, cue_text d)) added)"
    if f: "i < length (textTracks (video st)) \<and> isCorrespondingTrack (textTracks (video st) ! i) cur \<and>
       (\<forall>j<i. \<not> isCorrespondingTrack (textTracks (video st) ! j) cur)"
  proof -
    have "textTracks (video (addCues cs h st)) = addToFirst cur cs (textTracks (video st))"
      using a by (simp add: addCues_def textTracks_set_textTracks length_addToFirst)
    also have "\<dots> = (textTracks (video st))
        [i := fold (\<lambda>cue t. addCueToTrack t cue) cs (textTracks (video st) ! i)]"
      using f by (simp add: addToFirst_first)
    finally show ?thesis
      using fold_addCueToTrack [of cs "textTracks (video st) ! i"] by auto
  qed
qed


lemma ex_captioned_reached:
  "initNativeTextTrack [ex_subtitles, ex_subtitles_fr] ex_session = ex_captioned"
  by (simp add: ex_captioned_def ex_session_def initNativeTextTrack_def placeholder_def falsy_def
      ex_subtitles_def ex_subtitles_fr_def ex_placeholder_def ex_placeholder_fr_def ex_video_def)

lemma toLowerCase_SUBTITLES: "toLowerCase ''SUBTITLES'' = ''subtitles''"
  by (simp add: toLowerCase_def lower_char_def Let_def char_of_def bit_0)

lemma ex_corresponding:
  "isCorrespondingTrack (el_track ex_placeholder) ex_rendition_en"
  "\<not> isCorrespondingTrack (el_track ex_placeholder_fr) ex_rendition_en"
  by (simp_all add: isCorrespondingTrack_def ex_placeholder_def ex_placeholder_fr_def
      ex_rendition_en_def toLowerCase_SUBTITLES)

lemma ex_captioned_tracks:
  "textTracks (video ex_captioned) = [el_track ex_placeholder, el_track ex_placeholder_fr]"
  by (simp add: textTracks_def ex_captioned_def ex_video_def)

lemma ex_active_en:
  "subtitleTrack ex_subs_engine \<noteq> - 1 \<and>
   at_index (subtitleTracks ex_subs_engine) (subtitleTrack ex_subs_engine) = Some ex_rendition_en"
  by (simp add: ex_subs_engine_def at_index_def)

theorem hidden_stays_hidden_counterexample:
  "at_index (subtitleTracks ex_subs_engine) (subtitleTrack ex_subs_engine) = Some ex_rendition_en \<and>
   isCorrespondingTrack (el_track ex_placeholder) ex_rendition_en \<and>
   map mode (textTracks (video (updateTextTrack ex_subs_engine ex_captioned))) = [Hidden, Disabled]"
  using ex_active_en ex_corresponding
  by (simp add: updateTextTrack_tracks [of ex_subs_engine ex_rendition_en] ex_captioned_tracks
      switchMode_mode, simp add: ex_placeholder_def ex_placeholder_fr_def)

theorem subtitle_switch_modes_witness:
  "map mode (textTracks (video ex_captioned)) = [Hidden, Hidden] \<and>
   map mode (textTracks (video (updateTextTrack ex_subs_engine ex_captioned))) = [Hidden, Disabled] \<and>
   map mode (textTracks (video (updateTextTrack (ex_subs_engine\<lparr>subtitleTrack := 1\<rparr>)
      (updateTextTrack ex_subs_engine ex_captioned)))) = [Disabled, Showing] \<and>
   length (filter (\<lambda>t'. mode t' \<noteq> Disabled)
      (textTracks (video (updateTextTrack ex_subs_engine ex_captioned)))) = 1"
proof -
  note t = subtitle_switch_modes [of ex_subs_engine ex_captioned ex_rendition_en]
  have a: "at_index (subtitleTracks ex_subs_engine) (subtitleTrack ex_subs_engine) = Some ex_rendition_en"
    using ex_active_en by simp
  from t a have "length (filter (\<lambda>t'. mode t' \<noteq> Disabled)
        (textTracks (video (updateTextTrack ex_subs_engine ex_captioned))))
      = length (filter (\<lambda>t. isCorrespondingTrack t ex_rendition_en) (textTracks (video ex_captioned)))"
    by blast
  then have 1: "length (filter (\<lambda>t'. mode t' \<noteq> Disabled)
        (textTracks (video (updateTextTrack ex_subs_engine ex_captioned)))) = 1"
    by (simp add: ex_captioned_tracks ex_corresponding)
  have 2: "map mode (textTracks (video ex_captioned)) = [Hidden, Hidden]"
    by (simp add: ex_captioned_tracks ex_placeholder_def ex_placeholder_fr_def)
  have 3: "textTracks (video (updateTextTrack ex_subs_engine ex_captioned))
      = [el_track ex_placeholder, (el_track ex_placeholder_fr)\<lparr>mode := Disabled\<rparr>]"
    using a ex_corresponding
    by (simp add: updateTextTrack_tracks [of ex_subs_engine ex_rendition_en] ex_captioned_tracks
        switchMode_def Let_def, simp add: ex_placeholder_def ex_placeholder_fr_def)
  have b: "at_index (subtitleTracks (ex_subs_engine\<lparr>subtitleTrack := 1\<rparr>))
      (subtitleTrack (ex_subs_engine\<lparr>subtitleTrack := 1\<rparr>)) = Some ex_rendition_fr"
    by (simp add: ex_subs_engine_def at_index_def)
  have 4: "map mode (textTracks (video (updateTextTrack (ex_subs_engine\<lparr>subtitleTrack := 1\<rparr>)
      (updateTextTrack ex_subs_engine ex_captioned)))) = [Disabled, Showing]"
    by (simp add: updateTextTrack_tracks [OF b] 3 switchMode_mode,
        simp add: isCorrespondingTrack_def ex_placeholder_def ex_placeholder_fr_def
          ex_rendition_fr_def toLowerCase_SUBTITLES)
  from 3 have 5: "map mode (textTracks (video (updateTextTrack ex_subs_engine ex_captioned))) = [Hidden, Disabled]"
    by (simp add: ex_placeholder_def ex_placeholder_fr_def)
  from 1 2 4 5 show ?thesis by blast
qed

theorem cues_go_to_first_corresponding_track_witness:
  "textTracks (video (addCues [ex_cue] ex_subs_engine ex_captioned))
     = [(el_track ex_placeholder)\<lparr>cues := [ex_cue]\<rparr>, el_track ex_placeholder_fr] \<and>
   addCues [ex_cue] ex_subs_engine (addCues [ex_cue] ex_subs_engine ex_captioned)
     = addCues [ex_cue] ex_subs_engine ex_captioned \<and>
   addCues [ex_cue] (ex_subs_engine\<lparr>subtitleTrack := - 1\<rparr>) ex_captioned = ex_captioned"
proof -
  note t = cues_go_to_first_corresponding_track [of ex_subs_engine "[ex_cue]" ex_captioned ex_rendition_en 0]
  have f: "0 < length (textTracks (video ex_captioned)) \<and>
      isCorrespondingTrack (textTracks (video ex_captioned) ! 0) ex_rendition_en \<and>
      (\<forall>j<0. \<not> isCorrespondingTrack (textTracks (video ex_captioned) ! j) ex_rendition_en)"
    by (simp add: ex_captioned_tracks ex_corresponding)
  from t ex_active_en f obtain added where
    a: "textTracks (video (addCues [ex_cue] ex_subs_engine ex_captioned))
        = (textTracks (video ex_captioned))
            [0 := (textTracks (video ex_captioned) ! 0)\<lparr>cues := cues (textTracks (video ex_captioned) ! 0) @ added\<rparr>]"
    and b: "subseq added [ex_cue]"
    and c: "(\<lambda>d. (startTime d, endTime d, cue_text d)) ` set added
        = (\<lambda>d. (startTime d, endTime d, cue_text d)) ` set [ex_cue]
          - (\<lambda>d. (startTime d, endTime d, cue_text d)) ` set (cues (textTracks (video ex_captioned) ! 0))"
    by blast
  from c have "added \<noteq> []"
    by (auto simp: ex_captioned_tracks ex_placeholder_def)
  with b have "added = [ex_cue]"
    by (cases added) (auto simp: subseq_Cons2_iff split: if_splits)
  with a have 1: "textTracks (video (addCues [ex_cue] ex_subs_engine ex_captioned))
     = [(el_track ex_placeholder)\<lparr>cues := [ex_cue]\<rparr>, el_track ex_placeholder_fr]"
    by (simp add: ex_captioned_tracks ex_placeholder_def)
  have 2: "addCues [ex_cue] ex_subs_engine (addCues [ex_cue] ex_subs_engine ex_captioned)
     = addCues [ex_cue] ex_subs_engine ex_captioned"
    using ex_active_en ex_corresponding
    by (simp add: addCues_def ex_captioned_tracks,
        simp add: textTracks_def set_textTracks_def ex_captioned_def ex_video_def
          addCueToTrack_def duplicate_def ex_placeholder_def ex_placeholder_fr_def
          isCorrespondingTrack_def ex_rendition_en_def toLowerCase_SUBTITLES)
  from t have 3: "addCues [ex_cue] (ex_subs_engine\<lparr>subtitleTrack := - 1\<rparr>) ex_captioned = ex_captioned"
    by (simp add: addCues_def)
  from 1 2 3 show ?thesis by simp
qed

subsection \<open>From the engine to the track lists\<close>

lemma addVideoTracks_frame:
  "video (addVideoTracks h a ls idx st) = video st"
  "hlsInstance (addVideoTracks h a ls idx st) = hlsInstance st"
  "hlsSrc (addVideoTracks h a ls idx st) = hlsSrc st"
  "videoTrackList (addVideoTracks h a ls idx st) = videoTrackList st"
  "audioTrackList (addVideoTracks h a ls idx st) = audioTrackList st"
  "createdAudioTracks (addVideoTracks h a ls idx st) = createdAudioTracks st"
  "alists (addVideoTracks h a ls idx st) = alists st"
  "nextRef (addVideoTracks h a ls idx st) = nextRef st + length ls"
  "length (vlists (addVideoTracks h a ls idx st)) = length (vlists st)"
  by (induction ls arbitrary: idx st) (simp_all add: Let_def length_modify)

lemma addAudioTracks_frame:
  "video (addAudioTracks h a ls idx st) = video st"
  "hlsInstance (addAudioTracks h a ls idx st) = hlsInstance st"
  "hlsSrc (addAudioTracks h a ls idx st) = hlsSrc st"
  "videoTrackList (addAudioTracks h a ls idx st) = videoTrackList st"
  "audioTrackList (addAudioTracks h a ls idx st) = audioTrackList st"
  "createdVideoTracks (addAudioTracks h a ls idx st) = createdVideoTracks st"
  "vlists (addAudioTracks h a ls idx st) = vlists st"
  "nextRef (addAudioTracks h a ls idx st) = nextRef st + length ls"
  "length (alists (addAudioTracks h a ls idx st)) = length (alists st)"
  by (induction ls arbitrary: idx st) (simp_all add: Let_def length_modify)

lemma addVideoTracks_tracks:
  "a < length (vlists st) \<Longrightarrow>
     tracks (vlists (addVideoTracks h a ls idx st) ! a)
       = tracks (vlists st ! a)
         @ map (\<lambda>i. newVideoTrack h (nextRef st + i) (ls ! i) (idx + i)) [0..<length ls]"
proof (induction ls arbitrary: idx st)
  case Nil
  show ?case by simp
next
  case (Cons l ls)
  let ?st1 = "st\<lparr>nextRef := Suc (nextRef st),
      vlists := modify a (addTrack (newVideoTrack h (nextRef st) l idx)) (vlists st),
      createdVideoTracks := set_add (ref (newVideoTrack h (nextRef st) l idx)) (createdVideoTracks st)\<rparr>"
  have "a < length (vlists ?st1)" using Cons.prems by (simp add: length_modify)
  from Cons.IH [OF this, of "Suc idx"] Cons.prems
  show ?case
    by (simp add: Let_def nth_modify addTrack_def map_upt_Suc del: upt_Suc)
qed

lemma addAudioTracks_tracks:
  "a < length (alists st) \<Longrightarrow>
     tracks (alists (addAudioTracks h a ls idx st) ! a)
       = tracks (alists st ! a)
         @ map (\<lambda>i. newAudioTrack h (nextRef st + i) (ls ! i) (idx + i)) [0..<length ls]"
proof (induction ls arbitrary: idx st)
  case Nil
  show ?case by simp
next
  case (Cons l ls)
  let ?st1 = "st\<lparr>nextRef := Suc (nextRef st),
      alists := modify a (addTrack (newAudioTrack h (nextRef st) l idx)) (alists st),
      createdAudioTracks := set_add (ref (newAudioTrack h (nextRef st) l idx)) (createdAudioTracks st)\<rparr>"
  have "a < length (alists ?st1)" using Cons.prems by (simp add: length_modify)
  from Cons.IH [OF this, of "Suc idx"] Cons.prems
  show ?case
    by (simp add: Let_def nth_modify addTrack_def map_upt_Suc del: upt_Suc)
qed

lemma addVideoTracks_created:
  "\<forall>r\<in>set (createdVideoTracks st). r < nextRef st \<Longrightarrow>
     createdVideoTracks (addVideoTracks h a ls idx st)
       = createdVideoTracks st @ map (\<lambda>i. nextRef st + i) [0..<length ls]"
proof (induction ls arbitrary: idx st)
  case Nil
  show ?case by simp
next
  case (Cons l ls)
  let ?st1 = "st\<lparr>nextRef := Suc (nextRef st),
      vlists := modify a (addTrack (newVideoTrack h (nextRef st) l idx)) (vlists st),
      createdVideoTracks := set_add (ref (newVideoTrack h (nextRef st) l idx)) (createdVideoTracks st)\<rparr>"
  have new: "set_add (nextRef st) (createdVideoTracks st) = createdVideoTracks st @ [nextRef st]"
    using Cons.prems by (auto simp: set_add_def)
  have "\<forall>r\<in>set (createdVideoTracks ?st1). r < nextRef ?st1"
    using Cons.prems by (auto simp: newVideoTrack_def new less_Suc_eq)
  from Cons.IH [OF this, of "Suc idx"]
  show ?case
    by (simp add: Let_def newVideoTrack_def new map_upt_Suc del: upt_Suc)
qed

lemma addAudioTracks_created:
  "\<forall>r\<in>set (createdAudioTracks st). r < nextRef st \<Longrightarrow>
     createdAudioTracks (addAudioTracks h a ls idx st)
       = createdAudioTracks st @ map (\<lambda>i. nextRef st + i) [0..<length ls]"
proof (induction ls arbitrary: idx st)
  case Nil
  show ?case by simp
next
  case (Cons l ls)
  let ?st1 = "st\<lparr>nextRef := Suc (nextRef st),
      alists := modify a (addTrack (newAudioTrack h (nextRef st) l idx)) (alists st),
      createdAudioTracks := set_add (ref (newAudioTrack h (nextRef st) l idx)) (createdAudioTracks st)\<rparr>"
  have new: "set_add (nextRef st) (createdAudioTracks st) = createdAudioTracks st @ [nextRef st]"
    using Cons.prems by (auto simp: set_add_def)
  have "\<forall>r\<in>set (createdAudioTracks ?st1). r < nextRef ?st1"
    using Cons.prems by (auto simp: newAudioTrack_def new less_Suc_eq)
  from Cons.IH [OF this, of "Suc idx"]
  show ?case
    by (simp add: Let_def newAudioTrack_def new map_upt_Suc del: upt_Suc)
qed

lemma updateTrackLists_video:
  assumes "\<not> falsy (hlsSrc st)" and "videoTrackList st = Some va" and "audioTrackList st = Some aa"
    and "va < length (vlists st)"
  shows "tracks (vlists (updateTrackLists h st) ! va)
           = filter (\<lambda>t. ref t \<notin> set (createdVideoTracks st)) (tracks (vlists st ! va))
             @ map (\<lambda>i. newVideoTrack h (nextRef st + i) (levels h ! i) i) [0..<length (levels h)]"
    and "createdVideoTracks (updateTrackLists h st) = map (\<lambda>i. nextRef st + i) [0..<length (levels h)]"
  using assms
  by (simp_all add: updateTrackLists_def Let_def addAudioTracks_frame addVideoTracks_tracks
      addVideoTracks_created length_modify nth_modify removeTracks_filter)

lemma updateTrackLists_audio:
  assumes "\<not> falsy (hlsSrc st)" and "videoTrackList st = Some va" and "audioTrackList st = Some aa"
    and "aa < length (alists st)"
  shows "tracks (alists (updateTrackLists h st) ! aa)
           = filter (\<lambda>t. ref t \<notin> set (createdAudioTracks st)) (tracks (alists st ! aa))
             @ map (\<lambda>i. newAudioTrack h (nextRef st + length (levels h) + i) (audioTracks h ! i) i)
                 [0..<length (audioTracks h)]"
    and "createdAudioTracks (updateTrackLists h st)
           = map (\<lambda>i. nextRef st + length (levels h) + i) [0..<length (audioTracks h)]"
  using assms
  by (simp_all add: updateTrackLists_def Let_def addVideoTracks_frame addAudioTracks_tracks
      addAudioTracks_created length_modify nth_modify removeTracks_filter)


lemma own_entries:
  fixes kept :: "'a track_scheme list" and mk :: "nat \<Rightarrow> 'a track_scheme"
  assumes "\<forall>t\<in>set kept. ref t < r" and "\<forall>i<n. ref (mk i) = r + i"
  shows "filter (\<lambda>t. ref t \<in> set (map (\<lambda>i. r + i) [0..<n])) (kept @ map mk [0..<n]) = map mk [0..<n]"
    and "filter (\<lambda>t. ref t \<notin> set (map (\<lambda>i. r + i) [0..<n])) (kept @ map mk [0..<n]) = kept"
proof -
  have k: "\<forall>t\<in>set kept. ref t \<notin> set (map (\<lambda>i. r + i) [0..<n])"
    using assms(1) by auto
  have m: "\<forall>t\<in>set (map mk [0..<n]). ref t \<in> set (map (\<lambda>i. r + i) [0..<n])"
    using assms(2) by auto
  have k1: "filter (\<lambda>t. ref t \<in> set (map (\<lambda>i. r + i) [0..<n])) kept = []"
    by (rule filter_False) (use k in blast)
  have k2: "filter (\<lambda>t. ref t \<notin> set (map (\<lambda>i. r + i) [0..<n])) kept = kept"
    by (rule filter_True) (use k in blast)
  have m1: "filter (\<lambda>t. ref t \<in> set (map (\<lambda>i. r + i) [0..<n])) (map mk [0..<n]) = map mk [0..<n]"
    by (rule filter_True) (use m in blast)
  have m2: "filter (\<lambda>t. ref t \<notin> set (map (\<lambda>i. r + i) [0..<n])) (map mk [0..<n]) = []"
    by (rule filter_False) (use m in blast)
  show "filter (\<lambda>t. ref t \<in> set (map (\<lambda>i. r + i) [0..<n])) (kept @ map mk [0..<n]) = map mk [0..<n]"
    by (simp only: filter_append k1 m1 append_Nil)
  show "filter (\<lambda>t. ref t \<notin> set (map (\<lambda>i. r + i) [0..<n])) (kept @ map mk [0..<n]) = kept"
    by (simp only: filter_append k2 m2 append_Nil2)
qed

lemma no_stale:
  fixes ts :: "'a track_scheme list" and mk :: "nat \<Rightarrow> 'a track_scheme"
  assumes "\<forall>c\<in>set old. c < r" and "\<forall>i<n. ref (mk i) = r + i"
  shows "\<forall>t\<in>set (filter (\<lambda>t. ref t \<notin> set old) ts @ map mk [0..<n]). ref t \<notin> set old"
  using assms by auto

lemma map_over_indices: "map (\<lambda>i. f (xs ! i)) [0..<length xs] = map f xs"
  by (rule nth_equalityI) simp_all

lemma newVideoTrack_fields:
  "ref (newVideoTrack h r l i) = r" "id_t (newVideoTrack h r l i) = level_id l"
  "selected (newVideoTrack h r l i) = (currentLevel h = int i)"
  by (simp_all add: newVideoTrack_def)

lemma newAudioTrack_fields:
  "ref (newAudioTrack h r l i) = r" "id_t (newAudioTrack h r l i) = Some (mp_url l)"
  "enabled (newAudioTrack h r l i) = (audioTrack h = int i)"
  by (simp_all add: newAudioTrack_def)

lemma manifest_video:
  fixes h :: hls and st :: ponyfill and va :: nat
  assumes "\<not> falsy (hlsSrc st)"
    and "videoTrackList st = Some va" and "va < length (vlists st)"
    and "audioTrackList st = Some aa"
    and "\<forall>t\<in>set (tracks (vlists st ! va)). ref t < nextRef st"
    and "\<forall>r\<in>set (createdVideoTracks st). r < nextRef st"
  defines "st' \<equiv> updateTrackLists h st"
  defines "own \<equiv> filter (\<lambda>t. ref t \<in> set (createdVideoTracks st')) (tracks (vlists st' ! va))"
  shows "own = map (\<lambda>i. newVideoTrack h (nextRef st + i) (levels h ! i) i) [0..<length (levels h)]"
    and "map id_t own = map level_id (levels h)"
    and "map selected own = map (\<lambda>i. currentLevel h = int i) [0..<length (levels h)]"
    and "distinct (map ref own)"
    and "distinct (map id_t own) = distinct (map level_id (levels h))"
    and "\<forall>t\<in>set (tracks (vlists st' ! va)). ref t \<notin> set (createdVideoTracks st)"
    and "filter (\<lambda>t. ref t \<notin> set (createdVideoTracks st')) (tracks (vlists st' ! va))
           = filter (\<lambda>t. ref t \<notin> set (createdVideoTracks st)) (tracks (vlists st ! va))"
proof -
  let ?n = "length (levels h)"
  let ?mk = "\<lambda>i. newVideoTrack h (nextRef st + i) (levels h ! i) i"
  let ?kept = "filter (\<lambda>t. ref t \<notin> set (createdVideoTracks st)) (tracks (vlists st ! va))"
  have t: "tracks (vlists st' ! va) = ?kept @ map ?mk [0..<?n]"
    and c: "createdVideoTracks st' = map (\<lambda>i. nextRef st + i) [0..<?n]"
    unfolding st'_def by (rule updateTrackLists_video [OF assms(1,2,4,3)])+
  have k: "\<forall>t\<in>set ?kept. ref t < nextRef st" using assms(5) by simp
  have r: "\<forall>i<?n. ref (?mk i) = nextRef st + i" by (simp add: newVideoTrack_fields)
  show o: "own = map ?mk [0..<?n]"
    unfolding own_def t c by (rule own_entries(1) [OF k r])
  show "filter (\<lambda>t. ref t \<notin> set (createdVideoTracks st')) (tracks (vlists st' ! va)) = ?kept"
    unfolding t c by (rule own_entries(2) [OF k r])
  show "\<forall>t\<in>set (tracks (vlists st' ! va)). ref t \<notin> set (createdVideoTracks st)"
    unfolding t by (rule no_stale [OF assms(6) r])
  show i: "map id_t own = map level_id (levels h)"
    unfolding o by (simp add: newVideoTrack_fields comp_def map_over_indices [of level_id])
  show "map selected own = map (\<lambda>i. currentLevel h = int i) [0..<?n]"
    unfolding o by (simp add: newVideoTrack_fields comp_def)
  show "distinct (map ref own)"
    unfolding o by (simp add: newVideoTrack_fields comp_def distinct_map inj_on_def)
  show "distinct (map id_t own) = distinct (map level_id (levels h))"
    unfolding i ..
qed

lemma manifest_audio:
  fixes h :: hls and st :: ponyfill and aa :: nat
  assumes "\<not> falsy (hlsSrc st)"
    and "videoTrackList st = Some va"
    and "audioTrackList st = Some aa" and "aa < length (alists st)"
    and "\<forall>t\<in>set (tracks (alists st ! aa)). ref t < nextRef st"
    and "\<forall>r\<in>set (createdAudioTracks st). r < nextRef st"
  defines "st' \<equiv> updateTrackLists h st"
  defines "own \<equiv> filter (\<lambda>t. ref t \<in> set (createdAudioTracks st')) (tracks (alists st' ! aa))"
  shows "own = map (\<lambda>i. newAudioTrack h (nextRef st + length (levels h) + i) (audioTracks h ! i) i)
                 [0..<length (audioTracks h)]"
    and "map id_t own = map (\<lambda>t. Some (mp_url t)) (audioTracks h)"
    and "map enabled own = map (\<lambda>i. audioTrack h = int i) [0..<length (audioTracks h)]"
    and "distinct (map ref own)"
    and "distinct (map id_t own) = distinct (map mp_url (audioTracks h))"
    and "\<forall>t\<in>set (tracks (alists st' ! aa)). ref t \<notin> set (createdAudioTracks st)"
    and "filter (\<lambda>t. ref t \<notin> set (createdAudioTracks st')) (tracks (alists st' ! aa))
           = filter (\<lambda>t. ref t \<notin> set (createdAudioTracks st)) (tracks (alists st ! aa))"
proof -
  let ?n = "length (audioTracks h)"
  let ?r = "nextRef st + length (levels h)"
  let ?mk = "\<lambda>i. newAudioTrack h (?r + i) (audioTracks h ! i) i"
  let ?kept = "filter (\<lambda>t. ref t \<notin> set (createdAudioTracks st)) (tracks (alists st ! aa))"
  have t: "tracks (alists st' ! aa) = ?kept @ map ?mk [0..<?n]"
    and c: "createdAudioTracks st' = map (\<lambda>i. ?r + i) [0..<?n]"
    unfolding st'_def by (rule updateTrackLists_audio [OF assms(1,2,3,4)])+
  have k: "\<forall>t\<in>set ?kept. ref t < ?r" using assms(5) by (auto simp: trans_less_add1)
  have old: "\<forall>c\<in>set (createdAudioTracks st). c < ?r" using assms(6) by (auto simp: trans_less_add1)
  have r: "\<forall>i<?n. ref (?mk i) = ?r + i" by (simp add: newAudioTrack_fields)
  show o: "own = map ?mk [0..<?n]"
    unfolding own_def t c by (rule own_entries(1) [OF k r])
  show "filter (\<lambda>t. ref t \<notin> set (createdAudioTracks st')) (tracks (alists st' ! aa)) = ?kept"
    unfolding t c by (rule own_entries(2) [OF k r])
  show "\<forall>t\<in>set (tracks (alists st' ! aa)). ref t \<notin> set (createdAudioTracks st)"
    unfolding t by (rule no_stale [OF old r])
  show i: "map id_t own = map (\<lambda>t. Some (mp_url t)) (audioTracks h)"
    unfolding o by (simp add: newAudioTrack_fields comp_def map_over_indices [of "\<lambda>t. Some (mp_url t)"])
  show "map enabled own = map (\<lambda>i. audioTrack h = int i) [0..<?n]"
    unfolding o by (simp add: newAudioTrack_fields comp_def)
  show "distinct (map ref own)"
    unfolding o by (simp add: newAudioTrack_fields comp_def distinct_map inj_on_def)
  show "distinct (map id_t own) = distinct (map mp_url (audioTracks h))"
    unfolding i by (simp add: distinct_map inj_on_def)
qed


text \<open>
  C1, as amended. A manifest-loaded event in a session (a stored source that is not empty,
  both lists bound; every track object and every recorded identity older than the next
  one to be created). Afterwards the entries of the video list recorded in
  \<open>createdVideoTracks\<close> are, in the order of the list, one new track per level in the
  engine's order, with the level's identifier, selected exactly at the index that is the
  engine's active level; they are different objects; their identifiers are pairwise
  distinct exactly when the levels' identifiers are. No track recorded before the event is
  left in the list, and the entries not recorded are the ones that were there, unrecorded,
  before. The same for the audio list, the audio renditions and \<open>enabled\<close>.
\<close>

theorem manifest_fills_track_lists:
  assumes "\<not> falsy (hlsSrc st)"
    and "videoTrackList st = Some va" and "va < length (vlists st)"
    and "audioTrackList st = Some aa" and "aa < length (alists st)"
    and "\<forall>t\<in>set (tracks (vlists st ! va)). ref t < nextRef st"
    and "\<forall>t\<in>set (tracks (alists st ! aa)). ref t < nextRef st"
    and "\<forall>r\<in>set (createdVideoTracks st). r < nextRef st"
    and "\<forall>r\<in>set (createdAudioTracks st). r < nextRef st"
  shows
    "(let st' = updateTrackLists h st;
          vs = tracks (vlists st' ! va);
          own = filter (\<lambda>t. ref t \<in> set (createdVideoTracks st')) vs
      in own = map (\<lambda>i. newVideoTrack h (nextRef st + i) (levels h ! i) i) [0..<length (levels h)] \<and>
         map id_t own = map level_id (levels h) \<and>
         map selected own = map (\<lambda>i. currentLevel h = int i) [0..<length (levels h)] \<and>
         distinct (map ref own) \<and>
         distinct (map id_t own) = distinct (map level_id (levels h)) \<and>
         (\<forall>t\<in>set vs. ref t \<notin> set (createdVideoTracks st)) \<and>
         filter (\<lambda>t. ref t \<notin> set (createdVideoTracks st')) vs
           = filter (\<lambda>t. ref t \<notin> set (createdVideoTracks st)) (tracks (vlists st ! va))) \<and>
     (let st' = updateTrackLists h st;
          as = tracks (alists st' ! aa);
          own = filter (\<lambda>t. ref t \<in> set (createdAudioTracks st')) as
      in own = map (\<lambda>i. newAudioTrack h (nextRef st + length (levels h) + i) (audioTracks h ! i) i)
                 [0..<length (audioTracks h)] \<and>
         map id_t own = map (\<lambda>t. Some (mp_url t)) (audioTracks h) \<and>
         map enabled own = map (\<lambda>i. audioTrack h = int i) [0..<length (audioTracks h)] \<and>
         distinct (map ref own) \<and>
         distinct (map id_t own) = distinct (map mp_url (audioTracks h)) \<and>
         (\<forall>t\<in>set as. ref t \<notin> set (createdAudioTracks st)) \<and>
         filter (\<lambda>t. ref t \<notin> set (createdAudioTracks st')) as
           = filter (\<lambda>t. ref t \<notin> set (createdAudioTracks st)) (tracks (alists st ! aa)))"
proof -
  note v = manifest_video [OF assms(1,2,3,4,6,8), of h]
  note a = manifest_audio [OF assms(1,2,4,5,7,9), of h]
  show ?thesis
    unfolding Let_def
    by (intro conjI) (rule v a)+
qed

theorem manifest_fills_track_lists_witness:
  "tracks (vlists (updateTrackLists ex_engine ex_shared_session) ! 0)
     = [ex_dash_video, ex_track_480\<lparr>ref := 2\<rparr>, ex_track_720\<lparr>ref := 3\<rparr>] \<and>
   createdVideoTracks (updateTrackLists ex_engine ex_shared_session) = [2, 3] \<and>
   filter (\<lambda>t. ref t \<in> set (createdVideoTracks (updateTrackLists ex_engine ex_shared_session)))
      (tracks (vlists (updateTrackLists ex_engine ex_shared_session) ! 0))
     = [ex_track_480\<lparr>ref := 2\<rparr>, ex_track_720\<lparr>ref := 3\<rparr>] \<and>
   filter (\<lambda>t. ref t \<in> set (createdAudioTracks (updateTrackLists ex_engine ex_shared_session)))
      (tracks (alists (updateTrackLists ex_engine ex_shared_session) ! 0))
     = [ex_track_en\<lparr>ref := 4\<rparr>, ex_track_fr\<lparr>ref := 5\<rparr>]"
proof -
  have h: "\<not> falsy (hlsSrc ex_shared_session)"
    "videoTrackList ex_shared_session = Some 0" "0 < length (vlists ex_shared_session)"
    "audioTrackList ex_shared_session = Some 0" "0 < length (alists ex_shared_session)"
    "\<forall>t\<in>set (tracks (vlists ex_shared_session ! 0)). ref t < nextRef ex_shared_session"
    "\<forall>t\<in>set (tracks (alists ex_shared_session ! 0)). ref t < nextRef ex_shared_session"
    "\<forall>r\<in>set (createdVideoTracks ex_shared_session). r < nextRef ex_shared_session"
    "\<forall>r\<in>set (createdAudioTracks ex_shared_session). r < nextRef ex_shared_session"
    by (simp_all add: ex_shared_session_def ex_shared_def ex_new_def falsy_def ex_url_def
        ex_dash_video_def ex_dash_audio_def)
  note t = manifest_fills_track_lists [OF h, of ex_engine, unfolded Let_def]
  have l: "levels ex_engine = [ex_480, ex_720]" "audioTracks ex_engine = [ex_en, ex_fr]"
    "currentLevel ex_engine = 0" "audioTrack ex_engine = 0" "nextRef ex_shared_session = 2"
    by (simp_all add: ex_engine_def ex_shared_session_def ex_shared_def)
  have u: "[0..<2] = [0, 1]" by (simp add: upt_rec)
  from t have 1: "filter (\<lambda>t. ref t \<in> set (createdVideoTracks (updateTrackLists ex_engine ex_shared_session)))
      (tracks (vlists (updateTrackLists ex_engine ex_shared_session) ! 0))
     = [ex_track_480\<lparr>ref := 2\<rparr>, ex_track_720\<lparr>ref := 3\<rparr>]"
    by (simp add: l u newVideoTrack_def level_id_def ex_480_def ex_720_def
        ex_track_480_def ex_track_720_def)
  from t have 2: "filter (\<lambda>t. ref t \<in> set (createdAudioTracks (updateTrackLists ex_engine ex_shared_session)))
      (tracks (alists (updateTrackLists ex_engine ex_shared_session) ! 0))
     = [ex_track_en\<lparr>ref := 4\<rparr>, ex_track_fr\<lparr>ref := 5\<rparr>]"
    by (simp add: l u newAudioTrack_def ex_en_def ex_fr_def ex_track_en_def ex_track_fr_def)
  have 3: "updateTrackLists ex_engine ex_shared_session = ex_mixed\<lparr>hlsInstance := Some ex_attached, video := video ex_shared_session\<rparr>"
    by (simp add: ex_mixed_def ex_shared_session_def ex_shared_def ex_new_def ex_video_def
      ex_engine_def updateTrackLists_def falsy_def ex_url_def removeTracks_def removeTrack_def
      modify_def Let_def newVideoTrack_def newAudioTrack_def addTrack_def set_add_def level_id_def
      ex_480_def ex_720_def ex_en_def ex_fr_def
      ex_track_480_def ex_track_720_def ex_track_en_def ex_track_fr_def
      ex_dash_video_def ex_dash_audio_def)
  have 4: "tracks (vlists (updateTrackLists ex_engine ex_shared_session) ! 0)
     = [ex_dash_video, ex_track_480\<lparr>ref := 2\<rparr>, ex_track_720\<lparr>ref := 3\<rparr>]"
    "createdVideoTracks (updateTrackLists ex_engine ex_shared_session) = [2, 3]"
    unfolding 3 by (simp_all add: ex_mixed_def)
  from 1 2 4 show ?thesis by blast
qed

theorem same_url_levels_counterexample:
  "map id_t (tracks (vlists
      (updateTrackLists ex_same_url_engine (ex_session\<lparr>hlsInstance := Some ex_same_url_engine\<rparr>)) ! 0))
     = [Some ''480.m3u8'', Some ''480.m3u8''] \<and>
   \<not> distinct (map id_t (tracks (vlists
      (updateTrackLists ex_same_url_engine (ex_session\<lparr>hlsInstance := Some ex_same_url_engine\<rparr>)) ! 0)))"
  by (simp add: ex_session_def ex_same_url_engine_def ex_attached_def updateTrackLists_def
      falsy_def ex_url_def removeTracks_def modify_def Let_def newVideoTrack_def addTrack_def
      set_add_def level_id_def ex_480_def)

subsection \<open>Rendition switches\<close>


















text \<open>The states of the examples are states of the code.\<close>

lemmas ex_switch_defs =
  ex_switched_def ex_unselected_def ex_blob_def ex_other_engine_def ex_loading_def
  ex_populated_def ex_session_def ex_engine_def ex_attached_def ex_new_def ex_video_def
  ex_track_480_def ex_track_720_def ex_track_en_def ex_track_fr_def
  ex_480_def ex_720_def ex_en_def ex_fr_def ex_1080_def ex_de_def ex_url_def

lemma ex_unselected_reached:
  "updateTrackLists ex_loading (ex_session\<lparr>hlsInstance := Some ex_loading\<rparr>) = ex_unselected"
  by (simp add: ex_switch_defs updateTrackLists_def falsy_def removeTracks_def modify_def Let_def
      newVideoTrack_def newAudioTrack_def addTrack_def set_add_def level_id_def)



end
